theory Spec2Isabelle
  imports Complex_Main
begin

section \<open>InstantTrade Network: the persisted schema and its invariant checks\<close>

text \<open>
  The executable part of the repository is the PostgreSQL schema
  \<^verbatim>\<open>itn_db_schema_v1.sql\<close> (tables with CHECK, UNIQUE and FOREIGN KEY
  constraints, generated columns, rewrite rules, a view and a trigger), together with
  the invariant catalogue (pre-checks and the table \<^verbatim>\<open>ALLOWED_TRANSITIONS\<close>).

  Representation of the SQL types:
  \<^item> \<^verbatim>\<open>DECIMAL(15, 2)\<close> is an \<open>int\<close> counting hundredths (cents): 100.00 is \<open>10000\<close>.
    A value of that type has fewer than 13 digits before the point, so its count of
    cents is below \<open>10 ^ 15\<close> in absolute value; a larger one is a numeric overflow.
  \<^item> \<^verbatim>\<open>DECIMAL(5, 4)\<close> (the fraud score) is an \<open>int\<close> counting ten-thousandths:
    0.75 is \<open>7500\<close>.
  \<^item> \<^verbatim>\<open>DECIMAL(10, 8)\<close> (a discount rate) is an \<open>int\<close> counting units of
    \<open>10\<^sup>-\<^sup>8\<close>: 6 percent is \<open>6000000\<close>.
  \<^item> \<^verbatim>\<open>DECIMAL(10, 3)\<close> (a duration in seconds) is an \<open>int\<close> counting milliseconds.
  \<^item> \<^verbatim>\<open>TIMESTAMPTZ\<close> is an \<open>int\<close> counting microseconds, the resolution of the type.
  \<^item> \<^verbatim>\<open>VARCHAR\<close> is \<open>string\<close>; a nullable column is an \<open>option\<close>.
  A statement either fails with an error, leaving the database as it was, or returns
  the new database: \<open>sql_error + db\<close>.
\<close>

subsection \<open>Errors\<close>

datatype sql_error =
    Check_Violation string
  | Unique_Violation string
  | Foreign_Key_Violation string
  | Numeric_Overflow
  | Raise_Exception string
  | Invariant_Violation string
  | Feature_Not_Supported string
  | String_Data_Right_Truncation

subsection \<open>Tables\<close>

text \<open>\<^verbatim>\<open>itn_core.invoices\<close>; the free-text and bookkeeping columns
  (\<^verbatim>\<open>purchase_order_id\<close>, \<^verbatim>\<open>notes\<close>, \<^verbatim>\<open>created_at\<close>, \<^verbatim>\<open>updated_at\<close>) carry no
  constraint and are left out. The type of the amount is a parameter: a stored row
  (\<open>invoice\<close>) holds the amount in cents, and the values of an INSERT
  (\<open>rat invoice_of\<close>) carry the amount as the statement writes it, a number of
  currency units with any number of decimals, and the strings before they are fitted
  to their columns.\<close>

record 'a invoice_of =
  inv_id :: string
  inv_supplier_id :: string
  inv_buyer_id :: string
  inv_amount :: 'a
  inv_currency :: string
  inv_terms :: int
  inv_status :: string
  inv_fraud_score :: "int option"
  inv_fraud_score_calculated_at :: "int option"
  inv_invoice_hash :: string
  inv_accepted_at :: "int option"
  inv_settled_at :: "int option"

type_synonym invoice = "int invoice_of"

text \<open>\<^verbatim>\<open>itn_core.line_items\<close>. The column \<^verbatim>\<open>amount\<close> is generated and is not part of
  what a statement supplies; it is the function \<open>li_amount\<close> below.\<close>

record line_item =
  li_id :: nat
  li_invoice_id :: string
  li_description :: string
  li_quantity :: int
  li_unit_price :: int
  li_line_number :: int

text \<open>\<^verbatim>\<open>itn_core.settlements\<close>; \<^verbatim>\<open>capital_profit\<close> and \<^verbatim>\<open>duration_seconds\<close> are
  generated columns, the functions \<open>capital_profit\<close> and \<open>duration_seconds\<close> below.\<close>

record settlement =
  st_id :: string
  st_invoice_id :: string
  st_supplier_id :: string
  st_buyer_id :: string
  st_capital_provider_id :: string
  st_invoice_amount :: int
  st_discount_rate :: int
  st_buyer_cost :: int
  st_started_at :: int
  st_completed_at :: "int option"
  st_status :: string
  st_rail_used :: "string option"

text \<open>\<^verbatim>\<open>itn_core.settlement_legs\<close>\<close>

record settlement_leg =
  leg_id :: nat
  leg_settlement_id :: string
  leg_type :: string
  leg_account_id :: string
  leg_amount :: int
  leg_transaction_id :: string

text \<open>\<^verbatim>\<open>itn_core.pricing_quotes\<close>\<close>

record pricing_quote =
  pq_id :: nat
  pq_invoice_id :: string
  pq_amount :: int
  pq_terms :: int
  pq_discount_rate :: int
  pq_total_cost :: int
  pq_created_at :: int
  pq_expires_at :: int
  pq_used :: bool
  pq_used_at :: "int option"

text \<open>\<^verbatim>\<open>itn_audit.decision_ledger\<close>\<close>

record decision_record =
  dr_id :: nat
  dr_invariant_id :: string
  dr_check_type :: string
  dr_result :: bool
  dr_action :: string
  dr_error_message :: "string option"
  dr_actor :: "string option"
  dr_timestamp :: int
  dr_signature :: string
  dr_previous_record_hash :: "string option"

text \<open>The database: the account identifiers (the target of the foreign keys) and the
  rows of each table, in insertion order.\<close>

record db =
  accounts :: "string list"
  invoices :: "invoice list"
  line_items :: "line_item list"
  settlements :: "settlement list"
  settlement_legs :: "settlement_leg list"
  pricing_quotes :: "pricing_quote list"
  decision_ledger :: "decision_record list"

definition empty_db :: db where
  "empty_db = \<lparr>accounts = [], invoices = [], line_items = [], settlements = [],
     settlement_legs = [], pricing_quotes = [], decision_ledger = []\<rparr>"

subsection \<open>Fitting a value to the type of its column\<close>

text \<open>PostgreSQL rounds a \<^verbatim>\<open>numeric\<close> to the scale of its column half away from
  zero.\<close>

definition round_half_away_from_zero :: "rat \<Rightarrow> int" where
  "round_half_away_from_zero x = (if x \<ge> 0 then \<lfloor>x + 1 / 2\<rfloor> else - \<lfloor>- x + 1 / 2\<rfloor>)"

text \<open>A number assigned to a \<^verbatim>\<open>DECIMAL(15, 2)\<close> column is rounded to two decimals; it
  overflows when the rounded value has more than 13 digits before the point. The
  result is in cents.\<close>

definition numeric_15_2 :: "rat \<Rightarrow> sql_error + int" where
  "numeric_15_2 r =
     (if \<bar>round_half_away_from_zero (r * 100)\<bar> \<ge> 10 ^ 15 then Inl Numeric_Overflow
      else Inr (round_half_away_from_zero (r * 100)))"

text \<open>A string assigned to a \<^verbatim>\<open>VARCHAR(n)\<close> column: a longer string is an error, unless
  the characters beyond the length are all spaces, and then it is cut to the length.
  The strings are taken to be ASCII, one \<open>char\<close> for each character.\<close>

definition varchar :: "nat \<Rightarrow> string \<Rightarrow> sql_error + string" where
  "varchar n s =
     (if length s \<le> n then Inr s
      else if list_all (\<lambda>c. c = CHR '' '') (drop n s) then Inr (take n s)
      else Inl String_Data_Right_Truncation)"

subsection \<open>Invoices: column checks and INSERT\<close>

text \<open>\<^verbatim>\<open>CHECK (amount >= 100.00 AND amount <= 10000000.00)\<close>, INV-002.\<close>

definition invoices_amount_check :: "int \<Rightarrow> bool" where
  "invoices_amount_check a = (a \<ge> 10000 \<and> a \<le> 1000000000)"

definition invoices_currency_check :: "string \<Rightarrow> bool" where
  "invoices_currency_check c = (c \<in> set [''USD'', ''EUR'', ''GBP'', ''JPY''])"

text \<open>\<^verbatim>\<open>CHECK (terms IN (0, 15, 30, 45, 60, 90))\<close>, INV-007.\<close>

definition invoices_terms_check :: "int \<Rightarrow> bool" where
  "invoices_terms_check t = (t \<in> set [0, 15, 30, 45, 60, 90])"

text \<open>\<^verbatim>\<open>CHECK (status IN ('PENDING', 'ACCEPTED', 'SETTLED', 'REJECTED', 'EXPIRED',
  'FRAUD_REVIEW'))\<close>\<close>

definition invoices_status_check :: "string \<Rightarrow> bool" where
  "invoices_status_check s =
     (s \<in> set [''PENDING'', ''ACCEPTED'', ''SETTLED'', ''REJECTED'', ''EXPIRED'',
                ''FRAUD_REVIEW''])"

text \<open>\<^verbatim>\<open>CONSTRAINT different_parties CHECK (supplier_id != buyer_id)\<close>\<close>

definition different_parties :: "invoice \<Rightarrow> bool" where
  "different_parties i = (inv_supplier_id i \<noteq> inv_buyer_id i)"

text \<open>\<^verbatim>\<open>CONSTRAINT valid_fraud_score CHECK (fraud_score IS NULL OR
  (fraud_score >= 0 AND fraud_score <= 1))\<close>\<close>

definition valid_fraud_score :: "invoice \<Rightarrow> bool" where
  "valid_fraud_score i =
     (case inv_fraud_score i of None \<Rightarrow> True | Some s \<Rightarrow> s \<ge> 0 \<and> s \<le> 10000)"

text \<open>The CHECK constraints of a row, in the order in which PostgreSQL evaluates them,
  the order of their names: \<^verbatim>\<open>different_parties\<close>, \<^verbatim>\<open>invoices_amount_check\<close>,
  \<^verbatim>\<open>invoices_currency_check\<close>, \<^verbatim>\<open>invoices_status_check\<close>, \<^verbatim>\<open>invoices_terms_check\<close>,
  \<^verbatim>\<open>valid_fraud_score\<close>.\<close>

definition check_invoice_row :: "invoice \<Rightarrow> sql_error option" where
  "check_invoice_row i =
     (if \<not> different_parties i then Some (Check_Violation ''different_parties'')
      else if \<not> invoices_amount_check (inv_amount i) then Some (Check_Violation ''invoices_amount_check'')
      else if \<not> invoices_currency_check (inv_currency i) then Some (Check_Violation ''invoices_currency_check'')
      else if \<not> invoices_status_check (inv_status i) then Some (Check_Violation ''invoices_status_check'')
      else if \<not> invoices_terms_check (inv_terms i) then Some (Check_Violation ''invoices_terms_check'')
      else if \<not> valid_fraud_score i then Some (Check_Violation ''valid_fraud_score'')
      else None)"

text \<open>The primary key and the unique hash (INV-004), then the foreign keys to the
  accounts.\<close>

definition check_invoice_keys :: "db \<Rightarrow> invoice \<Rightarrow> sql_error option" where
  "check_invoice_keys d i =
     (if inv_id i \<in> set (map inv_id (invoices d)) then Some (Unique_Violation ''invoices_pkey'')
      else if inv_invoice_hash i \<in> set (map inv_invoice_hash (invoices d))
        then Some (Unique_Violation ''invoices_invoice_hash_key'')
      else if inv_supplier_id i \<notin> set (accounts d)
        then Some (Foreign_Key_Violation ''invoices_supplier_id_fkey'')
      else if inv_buyer_id i \<notin> set (accounts d)
        then Some (Foreign_Key_Violation ''invoices_buyer_id_fkey'')
      else None)"

text \<open>The values of an INSERT are fitted to the types of their columns before any
  constraint is looked at, column by column: the strings to \<^verbatim>\<open>VARCHAR(20)\<close>,
  \<^verbatim>\<open>VARCHAR(3)\<close> and \<^verbatim>\<open>VARCHAR(64)\<close>, the amount to \<^verbatim>\<open>DECIMAL(15, 2)\<close>, the terms to
  \<^verbatim>\<open>INTEGER\<close>. The fraud score and the timestamps are taken as values of their column
  types.\<close>

definition coerce_invoice :: "rat invoice_of \<Rightarrow> sql_error + invoice" where
  "coerce_invoice v =
     (case varchar 20 (inv_id v) of Inl e \<Rightarrow> Inl e | Inr c_id \<Rightarrow>
     (case varchar 20 (inv_supplier_id v) of Inl e \<Rightarrow> Inl e | Inr c_supplier \<Rightarrow>
     (case varchar 20 (inv_buyer_id v) of Inl e \<Rightarrow> Inl e | Inr c_buyer \<Rightarrow>
     (case numeric_15_2 (inv_amount v) of Inl e \<Rightarrow> Inl e | Inr c_amount \<Rightarrow>
     (case varchar 3 (inv_currency v) of Inl e \<Rightarrow> Inl e | Inr c_currency \<Rightarrow>
     (if inv_terms v < - 2147483648 \<or> 2147483647 < inv_terms v then Inl Numeric_Overflow else
     (case varchar 20 (inv_status v) of Inl e \<Rightarrow> Inl e | Inr c_status \<Rightarrow>
     (case varchar 64 (inv_invoice_hash v) of Inl e \<Rightarrow> Inl e | Inr c_hash \<Rightarrow>
        Inr \<lparr>inv_id = c_id, inv_supplier_id = c_supplier, inv_buyer_id = c_buyer, inv_amount = c_amount,
             inv_currency = c_currency, inv_terms = inv_terms v, inv_status = c_status,
             inv_fraud_score = inv_fraud_score v,
             inv_fraud_score_calculated_at = inv_fraud_score_calculated_at v,
             inv_invoice_hash = c_hash, inv_accepted_at = inv_accepted_at v,
             inv_settled_at = inv_settled_at v\<rparr>))))))))"

text \<open>\<^verbatim>\<open>INSERT INTO itn_core.invoices\<close> of one row: the values are fitted to the
  column types, then the row checks, the unique keys and the foreign keys.\<close>

definition insert_invoice :: "db \<Rightarrow> rat invoice_of \<Rightarrow> sql_error + db" where
  "insert_invoice d v =
     (case coerce_invoice v of Inl e \<Rightarrow> Inl e
      | Inr i \<Rightarrow>
        (case check_invoice_row i of Some e \<Rightarrow> Inl e
         | None \<Rightarrow>
           (case check_invoice_keys d i of Some e \<Rightarrow> Inl e
            | None \<Rightarrow> Inr (d\<lparr>invoices := invoices d @ [i]\<rparr>))))"

text \<open>INV-002, \<^verbatim>\<open>pre_check\<close>: \<^verbatim>\<open>amount >= 100 AND amount <= 10_000_000\<close>, on the amount
  as it is submitted.\<close>

definition inv_002_pre_check :: "rat \<Rightarrow> bool" where
  "inv_002_pre_check amount = (amount \<ge> 100 \<and> amount \<le> 10000000)"

text \<open>A submission under INV-002 (enforcement BLOCK): the pre-check, then the INSERT.\<close>

definition submit_invoice :: "db \<Rightarrow> rat invoice_of \<Rightarrow> sql_error + db" where
  "submit_invoice d v =
     (if \<not> inv_002_pre_check (inv_amount v) then Inl (Invariant_Violation ''inv_002_valid_amounts'')
      else insert_invoice d v)"

text \<open>\<^verbatim>\<open>UPDATE itn_core.invoices SET status = s WHERE id = iid\<close>. A statement that
  matches no row succeeds and changes nothing; the column check runs on the updated
  row. Nothing in the schema looks at the previous status.\<close>

definition update_invoice_status :: "db \<Rightarrow> string \<Rightarrow> string \<Rightarrow> sql_error + db" where
  "update_invoice_status d iid s =
     (if iid \<notin> set (map inv_id (invoices d)) then Inr d
      else if \<not> invoices_status_check s then Inl (Check_Violation ''invoices_status_check'')
      else Inr (d\<lparr>invoices := map (\<lambda>i. if inv_id i = iid then i\<lparr>inv_status := s\<rparr> else i) (invoices d)\<rparr>))"

subsection \<open>Settlements\<close>

text \<open>PostgreSQL rounds a \<^verbatim>\<open>numeric\<close> to the scale of its column half away from zero.
  \<open>round_div n k\<close> is \<open>n / k\<close> rounded so, for a positive \<open>k\<close>.\<close>

definition round_div :: "int \<Rightarrow> int \<Rightarrow> int" where
  "round_div n k = (if n \<ge> 0 then (2 * n + k) div (2 * k) else - ((2 * (- n) + k) div (2 * k)))"

text \<open>\<^verbatim>\<open>capital_profit DECIMAL(15, 2) GENERATED ALWAYS AS (buyer_cost - invoice_amount)\<close>\<close>

definition capital_profit :: "settlement \<Rightarrow> int" where
  "capital_profit st = st_buyer_cost st - st_invoice_amount st"

text \<open>\<^verbatim>\<open>duration_seconds DECIMAL(10, 3) GENERATED ALWAYS AS (EXTRACT(EPOCH FROM
  (completed_at - started_at)))\<close>: the difference in microseconds, rounded to
  milliseconds; NULL while \<^verbatim>\<open>completed_at\<close> is NULL.\<close>

definition duration_seconds :: "settlement \<Rightarrow> int option" where
  "duration_seconds st =
     (case st_completed_at st of None \<Rightarrow> None
      | Some c \<Rightarrow> Some (round_div (c - st_started_at st) 1000))"

definition settlements_status_check :: "string \<Rightarrow> bool" where
  "settlements_status_check s =
     (s \<in> set [''PENDING'', ''IN_PROGRESS'', ''COMPLETED'', ''FAILED'', ''ROLLED_BACK''])"

text \<open>\<^verbatim>\<open>CONSTRAINT settlement_duration_check CHECK (completed_at IS NULL OR
  duration_seconds < 5.0)\<close>, INV-201.\<close>

definition settlement_duration_check :: "settlement \<Rightarrow> bool" where
  "settlement_duration_check st =
     (st_completed_at st = None \<or>
      (case duration_seconds st of None \<Rightarrow> True | Some ms \<Rightarrow> ms < 5000))"

text \<open>What is checked on one settlement row, new or updated: the generated columns
  must fit their types, then the CHECK constraints in the order of their names.\<close>

definition check_settlement_row :: "settlement \<Rightarrow> sql_error option" where
  "check_settlement_row st =
     (if \<bar>capital_profit st\<bar> \<ge> 10 ^ 15 then Some Numeric_Overflow
      else if (case duration_seconds st of None \<Rightarrow> False | Some ms \<Rightarrow> \<bar>ms\<bar> \<ge> 10 ^ 10)
        then Some Numeric_Overflow
      else if \<not> settlement_duration_check st then Some (Check_Violation ''settlement_duration_check'')
      else if \<not> settlements_status_check (st_status st) then Some (Check_Violation ''settlements_status_check'')
      else None)"

text \<open>The unique keys of a settlement row against the other rows \<open>rest\<close> (the primary
  key, and \<^verbatim>\<open>invoice_id ... UNIQUE\<close>, INV-006), then its foreign keys.\<close>

definition check_settlement_keys :: "db \<Rightarrow> settlement list \<Rightarrow> settlement \<Rightarrow> sql_error option" where
  "check_settlement_keys d rest st =
     (if st_id st \<in> set (map st_id rest) then Some (Unique_Violation ''settlements_pkey'')
      else if st_invoice_id st \<in> set (map st_invoice_id rest)
        then Some (Unique_Violation ''settlements_invoice_id_key'')
      else if st_invoice_id st \<notin> set (map inv_id (invoices d))
        then Some (Foreign_Key_Violation ''settlements_invoice_id_fkey'')
      else if st_supplier_id st \<notin> set (accounts d)
        then Some (Foreign_Key_Violation ''settlements_supplier_id_fkey'')
      else if st_buyer_id st \<notin> set (accounts d)
        then Some (Foreign_Key_Violation ''settlements_buyer_id_fkey'')
      else if st_capital_provider_id st \<notin> set (accounts d)
        then Some (Foreign_Key_Violation ''settlements_capital_provider_id_fkey'')
      else None)"

definition insert_settlement :: "db \<Rightarrow> settlement \<Rightarrow> sql_error + db" where
  "insert_settlement d st =
     (case check_settlement_row st of Some e \<Rightarrow> Inl e
      | None \<Rightarrow>
        (case check_settlement_keys d (settlements d) st of Some e \<Rightarrow> Inl e
         | None \<Rightarrow> Inr (d\<lparr>settlements := settlements d @ [st]\<rparr>)))"

text \<open>\<^verbatim>\<open>UPDATE itn_core.settlements SET ... WHERE id = sid\<close>, with \<open>f\<close> the SET clause.
  The legs reference \<^verbatim>\<open>settlements(id)\<close>, so a referenced key cannot change.\<close>

definition update_settlement :: "db \<Rightarrow> string \<Rightarrow> (settlement \<Rightarrow> settlement) \<Rightarrow> sql_error + db" where
  "update_settlement d sid f =
     (case find (\<lambda>s. st_id s = sid) (settlements d) of None \<Rightarrow> Inr d
      | Some old \<Rightarrow>
        (case check_settlement_row (f old) of Some e \<Rightarrow> Inl e
         | None \<Rightarrow>
           (case check_settlement_keys d (filter (\<lambda>s. st_id s \<noteq> sid) (settlements d)) (f old) of
              Some e \<Rightarrow> Inl e
            | None \<Rightarrow>
              if st_id (f old) \<noteq> sid \<and> sid \<in> set (map leg_settlement_id (settlement_legs d))
              then Inl (Foreign_Key_Violation ''settlement_legs_settlement_id_fkey'')
              else Inr (d\<lparr>settlements :=
                     map (\<lambda>s. if st_id s = sid then f old else s) (settlements d)\<rparr>))))"

subsection \<open>Settlement legs\<close>

definition settlement_legs_leg_type_check :: "string \<Rightarrow> bool" where
  "settlement_legs_leg_type_check t = (t \<in> set [''CREDIT'', ''DEBIT'', ''ADVANCE''])"

definition settlement_legs_amount_check :: "int \<Rightarrow> bool" where
  "settlement_legs_amount_check a = (a > 0)"

definition check_leg_row :: "settlement_leg \<Rightarrow> sql_error option" where
  "check_leg_row l =
     (if \<not> settlement_legs_amount_check (leg_amount l)
        then Some (Check_Violation ''settlement_legs_amount_check'')
      else if \<not> settlement_legs_leg_type_check (leg_type l)
        then Some (Check_Violation ''settlement_legs_leg_type_check'')
      else None)"

text \<open>The primary key, \<^verbatim>\<open>UNIQUE(settlement_id, leg_type)\<close>, and the foreign keys.\<close>

definition check_leg_keys :: "db \<Rightarrow> settlement_leg list \<Rightarrow> settlement_leg \<Rightarrow> sql_error option" where
  "check_leg_keys d rest l =
     (if leg_id l \<in> set (map leg_id rest) then Some (Unique_Violation ''settlement_legs_pkey'')
      else if (leg_settlement_id l, leg_type l) \<in> set (map (\<lambda>x. (leg_settlement_id x, leg_type x)) rest)
        then Some (Unique_Violation ''settlement_legs_settlement_id_leg_type_key'')
      else if leg_settlement_id l \<notin> set (map st_id (settlements d))
        then Some (Foreign_Key_Violation ''settlement_legs_settlement_id_fkey'')
      else if leg_account_id l \<notin> set (accounts d)
        then Some (Foreign_Key_Violation ''settlement_legs_account_id_fkey'')
      else None)"

definition insert_settlement_leg :: "db \<Rightarrow> settlement_leg \<Rightarrow> sql_error + db" where
  "insert_settlement_leg d l =
     (case check_leg_row l of Some e \<Rightarrow> Inl e
      | None \<Rightarrow>
        (case check_leg_keys d (settlement_legs d) l of Some e \<Rightarrow> Inl e
         | None \<Rightarrow> Inr (d\<lparr>settlement_legs := settlement_legs d @ [l]\<rparr>)))"

definition update_settlement_leg :: "db \<Rightarrow> nat \<Rightarrow> (settlement_leg \<Rightarrow> settlement_leg) \<Rightarrow> sql_error + db" where
  "update_settlement_leg d lid f =
     (case find (\<lambda>l. leg_id l = lid) (settlement_legs d) of None \<Rightarrow> Inr d
      | Some old \<Rightarrow>
        (case check_leg_row (f old) of Some e \<Rightarrow> Inl e
         | None \<Rightarrow>
           (case check_leg_keys d (filter (\<lambda>l. leg_id l \<noteq> lid) (settlement_legs d)) (f old) of
              Some e \<Rightarrow> Inl e
            | None \<Rightarrow> Inr (d\<lparr>settlement_legs :=
                     map (\<lambda>l. if leg_id l = lid then f old else l) (settlement_legs d)\<rparr>))))"

subsection \<open>Line items and the trigger \<^verbatim>\<open>validate_line_items\<close>\<close>

text \<open>\<^verbatim>\<open>amount DECIMAL(15, 2) NOT NULL GENERATED ALWAYS AS (quantity * unit_price)\<close>\<close>

definition li_amount :: "line_item \<Rightarrow> int" where
  "li_amount li = li_quantity li * li_unit_price li"

definition check_line_item_row :: "line_item \<Rightarrow> sql_error option" where
  "check_line_item_row li =
     (if \<bar>li_amount li\<bar> \<ge> 10 ^ 15 then Some Numeric_Overflow
      else if \<not> li_quantity li > 0 then Some (Check_Violation ''line_items_quantity_check'')
      else if \<not> li_unit_price li > 0 then Some (Check_Violation ''line_items_unit_price_check'')
      else None)"

text \<open>The primary key, \<^verbatim>\<open>UNIQUE(invoice_id, line_number)\<close> and the foreign key to the
  invoice, against the other rows \<open>rest\<close>.\<close>

definition check_line_item_keys :: "db \<Rightarrow> line_item list \<Rightarrow> line_item \<Rightarrow> sql_error option" where
  "check_line_item_keys d rest li =
     (if li_id li \<in> set (map li_id rest) then Some (Unique_Violation ''line_items_pkey'')
      else if (li_invoice_id li, li_line_number li)
                \<in> set (map (\<lambda>x. (li_invoice_id x, li_line_number x)) rest)
        then Some (Unique_Violation ''line_items_invoice_id_line_number_key'')
      else if li_invoice_id li \<notin> set (map inv_id (invoices d))
        then Some (Foreign_Key_Violation ''line_items_invoice_id_fkey'')
      else None)"

text \<open>\<^verbatim>\<open>SELECT COALESCE(SUM(amount), 0) FROM itn_core.line_items WHERE invoice_id = iid\<close>\<close>

definition line_items_sum :: "db \<Rightarrow> string \<Rightarrow> int" where
  "line_items_sum d iid = sum_list (map li_amount (filter (\<lambda>x. li_invoice_id x = iid) (line_items d)))"

text \<open>The trigger function \<^verbatim>\<open>validate_line_items_sum\<close>, run for the row \<open>new\<close> on the
  table as the statement left it. \<^verbatim>\<open>SELECT amount INTO invoice_amount\<close> of a missing
  invoice gives NULL, and a NULL condition does not raise; the sum is stored in a
  \<^verbatim>\<open>DECIMAL(15, 2)\<close> variable.\<close>

definition validate_line_items_sum :: "db \<Rightarrow> line_item \<Rightarrow> sql_error option" where
  "validate_line_items_sum d new =
     (if \<bar>line_items_sum d (li_invoice_id new)\<bar> \<ge> 10 ^ 15 then Some Numeric_Overflow
      else
        (case find (\<lambda>i. inv_id i = li_invoice_id new) (invoices d) of
           None \<Rightarrow> None
         | Some i \<Rightarrow>
             if \<bar>line_items_sum d (li_invoice_id new) - inv_amount i\<bar> > 1
             then Some (Raise_Exception ''INV-602 VIOLATION'')
             else None))"

text \<open>The rows of one INSERT statement are added one after the other, each checked
  against the rows before it.\<close>

fun add_line_items :: "db \<Rightarrow> line_item list \<Rightarrow> sql_error + db" where
  "add_line_items d [] = Inr d"
| "add_line_items d (li # lis) =
     (case check_line_item_row li of Some e \<Rightarrow> Inl e
      | None \<Rightarrow>
        (case check_line_item_keys d (line_items d) li of Some e \<Rightarrow> Inl e
         | None \<Rightarrow> add_line_items (d\<lparr>line_items := line_items d @ [li]\<rparr>) lis))"

text \<open>The trigger is \<^verbatim>\<open>AFTER INSERT OR UPDATE ... FOR EACH ROW\<close>: it runs once for
  each row of the statement, after the statement has written all of them.\<close>

fun fire_validate_line_items :: "db \<Rightarrow> line_item list \<Rightarrow> sql_error option" where
  "fire_validate_line_items d [] = None"
| "fire_validate_line_items d (li # lis) =
     (case validate_line_items_sum d li of Some e \<Rightarrow> Some e
      | None \<Rightarrow> fire_validate_line_items d lis)"

text \<open>\<^verbatim>\<open>INSERT INTO itn_core.line_items ... VALUES (...), (...), ...\<close>\<close>

definition insert_line_items :: "db \<Rightarrow> line_item list \<Rightarrow> sql_error + db" where
  "insert_line_items d lis =
     (case add_line_items d lis of Inl e \<Rightarrow> Inl e
      | Inr d' \<Rightarrow>
        (case fire_validate_line_items d' lis of Some e \<Rightarrow> Inl e | None \<Rightarrow> Inr d'))"

text \<open>\<^verbatim>\<open>UPDATE itn_core.line_items SET ... WHERE id = lid\<close>, with \<open>f\<close> the SET clause.
  The trigger reads \<^verbatim>\<open>NEW.invoice_id\<close> only.\<close>

definition update_line_item :: "db \<Rightarrow> nat \<Rightarrow> (line_item \<Rightarrow> line_item) \<Rightarrow> sql_error + db" where
  "update_line_item d lid f =
     (case find (\<lambda>x. li_id x = lid) (line_items d) of None \<Rightarrow> Inr d
      | Some old \<Rightarrow>
        (case check_line_item_row (f old) of Some e \<Rightarrow> Inl e
         | None \<Rightarrow>
           (case check_line_item_keys d (filter (\<lambda>x. li_id x \<noteq> lid) (line_items d)) (f old) of
              Some e \<Rightarrow> Inl e
            | None \<Rightarrow>
               (let d' = d\<lparr>line_items := map (\<lambda>x. if li_id x = lid then f old else x) (line_items d)\<rparr>
                in case validate_line_items_sum d' (f old) of Some e \<Rightarrow> Inl e | None \<Rightarrow> Inr d'))))"

subsection \<open>Pricing quotes\<close>

text \<open>\<^verbatim>\<open>CONSTRAINT quote_validity CHECK (expires_at > created_at)\<close>\<close>

definition quote_validity :: "pricing_quote \<Rightarrow> bool" where
  "quote_validity q = (pq_expires_at q > pq_created_at q)"

text \<open>\<^verbatim>\<open>CONSTRAINT quote_expiry_window CHECK (expires_at <= created_at + INTERVAL
  '5 minutes')\<close>, INV-109; five minutes are 300 000 000 microseconds.\<close>

definition quote_expiry_window :: "pricing_quote \<Rightarrow> bool" where
  "quote_expiry_window q = (pq_expires_at q \<le> pq_created_at q + 300000000)"

definition check_quote_row :: "pricing_quote \<Rightarrow> sql_error option" where
  "check_quote_row q =
     (if \<not> quote_expiry_window q then Some (Check_Violation ''quote_expiry_window'')
      else if \<not> quote_validity q then Some (Check_Violation ''quote_validity'')
      else None)"

definition check_quote_keys :: "db \<Rightarrow> pricing_quote list \<Rightarrow> pricing_quote \<Rightarrow> sql_error option" where
  "check_quote_keys d rest q =
     (if pq_id q \<in> set (map pq_id rest) then Some (Unique_Violation ''pricing_quotes_pkey'')
      else if pq_invoice_id q \<notin> set (map inv_id (invoices d))
        then Some (Foreign_Key_Violation ''pricing_quotes_invoice_id_fkey'')
      else None)"

definition insert_pricing_quote :: "db \<Rightarrow> pricing_quote \<Rightarrow> sql_error + db" where
  "insert_pricing_quote d q =
     (case check_quote_row q of Some e \<Rightarrow> Inl e
      | None \<Rightarrow>
        (case check_quote_keys d (pricing_quotes d) q of Some e \<Rightarrow> Inl e
         | None \<Rightarrow> Inr (d\<lparr>pricing_quotes := pricing_quotes d @ [q]\<rparr>)))"

definition update_pricing_quote :: "db \<Rightarrow> nat \<Rightarrow> (pricing_quote \<Rightarrow> pricing_quote) \<Rightarrow> sql_error + db" where
  "update_pricing_quote d qid f =
     (case find (\<lambda>q. pq_id q = qid) (pricing_quotes d) of None \<Rightarrow> Inr d
      | Some old \<Rightarrow>
        (case check_quote_row (f old) of Some e \<Rightarrow> Inl e
         | None \<Rightarrow>
           (case check_quote_keys d (filter (\<lambda>q. pq_id q \<noteq> qid) (pricing_quotes d)) (f old) of
              Some e \<Rightarrow> Inl e
            | None \<Rightarrow> Inr (d\<lparr>pricing_quotes :=
                     map (\<lambda>q. if pq_id q = qid then f old else q) (pricing_quotes d)\<rparr>))))"

subsection \<open>The decision ledger and its rewrite rules\<close>

datatype rule_event = On_Insert | On_Update | On_Delete

datatype rule_command = Do_Instead_Nothing | Do_Also_Nothing

text \<open>\<^verbatim>\<open>CREATE RULE decision_ledger_no_update AS ON UPDATE TO itn_audit.decision_ledger
  DO INSTEAD NOTHING\<close>, and the same \<^verbatim>\<open>ON DELETE\<close>.\<close>

definition decision_ledger_rules :: "(string \<times> rule_event \<times> rule_command) list" where
  "decision_ledger_rules =
     [(''decision_ledger_no_update'', On_Update, Do_Instead_Nothing),
      (''decision_ledger_no_delete'', On_Delete, Do_Instead_Nothing)]"

text \<open>The rewriter replaces a statement by nothing when an unconditional
  \<^verbatim>\<open>INSTEAD NOTHING\<close> rule is defined for its event on the table.\<close>

definition rewritten_to_nothing :: "(string \<times> rule_event \<times> rule_command) list \<Rightarrow> rule_event \<Rightarrow> bool" where
  "rewritten_to_nothing rules ev = list_ex (\<lambda>(n, e, c). e = ev \<and> c = Do_Instead_Nothing) rules"

definition check_decision_row :: "decision_record \<Rightarrow> sql_error option" where
  "check_decision_row r =
     (if dr_action r \<notin> set [''PROCEED'', ''ROLLBACK'', ''FREEZE'']
        then Some (Check_Violation ''decision_ledger_action_check'')
      else if dr_check_type r \<notin> set [''PRE'', ''POST'']
        then Some (Check_Violation ''decision_ledger_check_type_check'')
      else None)"

fun check_decision_rows :: "decision_record list \<Rightarrow> sql_error option" where
  "check_decision_rows [] = None"
| "check_decision_rows (r # rs) =
     (case check_decision_row r of Some e \<Rightarrow> Some e | None \<Rightarrow> check_decision_rows rs)"

text \<open>The form of a statement: on its own without a RETURNING clause, on its own with
  a RETURNING clause, or as a data-modifying statement inside a WITH clause.\<close>

datatype dml_form = Plain | Returning | In_With

text \<open>What the rewriter makes of a statement that an unconditional \<^verbatim>\<open>INSTEAD NOTHING\<close>
  rule replaces by nothing. The rules of the schema have no RETURNING clause, so a
  statement with a RETURNING clause is refused ("cannot perform UPDATE RETURNING on
  relation", SQLSTATE 0A000), and so is a data-modifying statement in WITH ("DO INSTEAD
  NOTHING rules are not supported for data-modifying statements in WITH"); a plain
  statement completes with no row affected.\<close>

definition instead_nothing :: "string \<Rightarrow> db \<Rightarrow> dml_form \<Rightarrow> sql_error + nat \<times> db" where
  "instead_nothing command d form =
     (case form of
        Plain \<Rightarrow> Inr (0, d)
      | Returning \<Rightarrow> Inl (Feature_Not_Supported
          (''cannot perform '' @ command @ '' RETURNING on relation decision_ledger''))
      | In_With \<Rightarrow> Inl (Feature_Not_Supported
          ''DO INSTEAD NOTHING rules are not supported for data-modifying statements in WITH''))"

text \<open>The statements on the ledger return the number of rows they affected and the
  database. \<open>p\<close> is the WHERE clause and \<open>f\<close> the SET clause. Without a rule, an UPDATE
  rewrites the rows that match and a DELETE removes them.\<close>

definition insert_decision :: "db \<Rightarrow> decision_record \<Rightarrow> sql_error + nat \<times> db" where
  "insert_decision d r =
     (if rewritten_to_nothing decision_ledger_rules On_Insert then Inr (0, d)
      else
        (case check_decision_row r of Some e \<Rightarrow> Inl e
         | None \<Rightarrow>
             if dr_id r \<in> set (map dr_id (decision_ledger d))
             then Inl (Unique_Violation ''decision_ledger_pkey'')
             else Inr (1, d\<lparr>decision_ledger := decision_ledger d @ [r]\<rparr>)))"

definition update_decision_ledger ::
  "db \<Rightarrow> dml_form \<Rightarrow> (decision_record \<Rightarrow> bool) \<Rightarrow> (decision_record \<Rightarrow> decision_record)
     \<Rightarrow> sql_error + nat \<times> db" where
  "update_decision_ledger d form p f =
     (if rewritten_to_nothing decision_ledger_rules On_Update then instead_nothing ''UPDATE'' d form
      else
        (let rows = map (\<lambda>r. if p r then f r else r) (decision_ledger d) in
         case check_decision_rows (map f (filter p (decision_ledger d))) of
           Some e \<Rightarrow> Inl e
         | None \<Rightarrow>
             if \<not> distinct (map dr_id rows) then Inl (Unique_Violation ''decision_ledger_pkey'')
             else Inr (length (filter p (decision_ledger d)), d\<lparr>decision_ledger := rows\<rparr>)))"

definition delete_decision_ledger ::
  "db \<Rightarrow> dml_form \<Rightarrow> (decision_record \<Rightarrow> bool) \<Rightarrow> sql_error + nat \<times> db" where
  "delete_decision_ledger d form p =
     (if rewritten_to_nothing decision_ledger_rules On_Delete then instead_nothing ''DELETE'' d form
      else Inr (length (filter p (decision_ledger d)),
                d\<lparr>decision_ledger := filter (\<lambda>r. \<not> p r) (decision_ledger d)\<rparr>))"

subsection \<open>The view \<^verbatim>\<open>itn_core.system_health\<close>: the ledger columns\<close>

text \<open>\<^verbatim>\<open>(SELECT COALESCE(SUM(amount), 0) FROM itn_core.settlement_legs WHERE leg_type =
  'CREDIT') AS total_credits\<close>, and the same for \<^verbatim>\<open>'DEBIT'\<close>.\<close>

definition sum_legs :: "string \<Rightarrow> db \<Rightarrow> int" where
  "sum_legs t d = sum_list (map leg_amount (filter (\<lambda>l. leg_type l = t) (settlement_legs d)))"

definition total_credits :: "db \<Rightarrow> int" where
  "total_credits d = sum_legs ''CREDIT'' d"

definition total_debits :: "db \<Rightarrow> int" where
  "total_debits d = sum_legs ''DEBIT'' d"

text \<open>\<^verbatim>\<open>ABS(total_credits - total_debits) < 0.01 AS ledger_balanced\<close>\<close>

definition ledger_balanced :: "db \<Rightarrow> bool" where
  "ledger_balanced d = (\<bar>total_credits d - total_debits d\<bar> < 1)"

subsection \<open>The invariant catalogue\<close>

text \<open>INV-501, \<^verbatim>\<open>post_check\<close>: \<^verbatim>\<open>SUM(supplier_credits) == SUM(buyer_debits +
  capital_advances); difference < $0.01\<close>, read on the legs of type CREDIT, DEBIT and
  ADVANCE.\<close>

definition total_advances :: "db \<Rightarrow> int" where
  "total_advances d = sum_legs ''ADVANCE'' d"

definition inv_501_post_check :: "db \<Rightarrow> bool" where
  "inv_501_post_check d = (\<bar>total_credits d - (total_debits d + total_advances d)\<bar> < 1)"

text \<open>INV-101: the table of valid transitions and its \<^verbatim>\<open>pre_check\<close>, "verify
  transition valid per state machine".\<close>

definition ALLOWED_TRANSITIONS :: "(string \<times> string list) list" where
  "ALLOWED_TRANSITIONS =
     [(''PENDING'', [''ACCEPTED'', ''REJECTED'', ''EXPIRED'', ''FRAUD_REVIEW'']),
      (''ACCEPTED'', [''SETTLED'', ''FAILED'']),
      (''FRAUD_REVIEW'', [''ACCEPTED'', ''REJECTED'']),
      (''SETTLED'', []),
      (''REJECTED'', []),
      (''EXPIRED'', []),
      (''FAILED'', [''REJECTED''])]"

definition inv_101_pre_check :: "string \<Rightarrow> string \<Rightarrow> bool" where
  "inv_101_pre_check current_status new_status =
     (case map_of ALLOWED_TRANSITIONS current_status of
        None \<Rightarrow> False
      | Some allowed \<Rightarrow> new_status \<in> set allowed)"

text \<open>A status transition under INV-101 (enforcement BLOCK): the pre-check on the
  stored status, then the write.\<close>

definition transition :: "db \<Rightarrow> string \<Rightarrow> string \<Rightarrow> sql_error + db" where
  "transition d iid to =
     (case find (\<lambda>i. inv_id i = iid) (invoices d) of
        None \<Rightarrow> Inr d
      | Some i \<Rightarrow>
          if \<not> inv_101_pre_check (inv_status i) to
          then Inl (Invariant_Violation ''inv_101_valid_transitions'')
          else update_invoice_status d iid to)"

text \<open>INV-202, \<^verbatim>\<open>pre_check\<close>: \<^verbatim>\<open>fraud_score_calculated_at > (now() - 24 hours) AND
  fraud_score < 0.75\<close>. 24 hours are 86 400 000 000 microseconds; a comparison with a
  NULL column is not true.\<close>

definition inv_202_pre_check :: "int \<Rightarrow> invoice \<Rightarrow> bool" where
  "inv_202_pre_check now i =
     (case inv_fraud_score_calculated_at i of
        None \<Rightarrow> False
      | Some t \<Rightarrow>
         (case inv_fraud_score i of
            None \<Rightarrow> False
          | Some s \<Rightarrow> t > now - 86400000000 \<and> s < 7500))"

text \<open>INV-202, \<^verbatim>\<open>rollback\<close>: \<^verbatim>\<open>UPDATE invoices SET status='FRAUD_REVIEW' WHERE
  id={invoice_id}\<close>.\<close>

definition inv_202_rollback :: "db \<Rightarrow> string \<Rightarrow> sql_error + db" where
  "inv_202_rollback d iid = update_invoice_status d iid ''FRAUD_REVIEW''"

text \<open>INV-109 (pricing freshness), \<^verbatim>\<open>pre_check\<close>: \<^verbatim>\<open>pricing_quote.created_at > (now() -
  5 minutes)\<close>.\<close>

definition inv_109_pre_check :: "int \<Rightarrow> pricing_quote \<Rightarrow> bool" where
  "inv_109_pre_check now q = (pq_created_at q > now - 300000000)"

text \<open>INV-103, \<^verbatim>\<open>pre_check\<close>: the quote "must exist AND age < 5 minutes"; it depends on
  INV-109.\<close>

definition inv_103_pre_check :: "int \<Rightarrow> pricing_quote option \<Rightarrow> bool" where
  "inv_103_pre_check now qo =
     (case qo of None \<Rightarrow> False
      | Some q \<Rightarrow> inv_109_pre_check now q \<and> now - pq_created_at q < 300000000)"

subsection \<open>Pricing\<close>

text \<open>Modelled from the spec: the pricing function (\<^verbatim>\<open>get_pricing\<close>,
  \<^verbatim>\<open>calculate_expected_cost\<close>) is called by the test criteria but defined nowhere in
  the sources. The spec gives \<^verbatim>\<open>total_cost = amount * (1 + discount_rate * terms /
  365)\<close>, rounded half away from zero to two decimal places. With the amount in cents
  and the rate in units of \<open>10\<^sup>-\<^sup>8\<close>, rounding to two places is rounding the cents
  to an integer.\<close>

definition exact_cost :: "int \<Rightarrow> int \<Rightarrow> int \<Rightarrow> rat" where
  "exact_cost amount discount_rate terms =
     of_int amount * (1 + (of_int discount_rate / 100000000) * of_int terms / 365)"

definition total_cost :: "int \<Rightarrow> int \<Rightarrow> int \<Rightarrow> int" where
  "total_cost amount discount_rate terms =
     round_half_away_from_zero (exact_cost amount discount_rate terms)"

subsection \<open>Statements and runs\<close>

datatype stmt =
    Insert_Invoice "rat invoice_of"
  | Update_Invoice_Status string string
  | Insert_Line_Items "line_item list"
  | Update_Line_Item nat "line_item \<Rightarrow> line_item"
  | Insert_Settlement settlement
  | Update_Settlement string "settlement \<Rightarrow> settlement"
  | Insert_Settlement_Leg settlement_leg
  | Update_Settlement_Leg nat "settlement_leg \<Rightarrow> settlement_leg"
  | Insert_Pricing_Quote pricing_quote
  | Update_Pricing_Quote nat "pricing_quote \<Rightarrow> pricing_quote"
  | Insert_Decision decision_record
  | Update_Decision_Ledger dml_form "decision_record \<Rightarrow> bool" "decision_record \<Rightarrow> decision_record"
  | Delete_Decision_Ledger dml_form "decision_record \<Rightarrow> bool"

fun exec :: "db \<Rightarrow> stmt \<Rightarrow> sql_error + db" where
  "exec d (Insert_Invoice v) = insert_invoice d v"
| "exec d (Update_Invoice_Status iid s) = update_invoice_status d iid s"
| "exec d (Insert_Line_Items lis) = insert_line_items d lis"
| "exec d (Update_Line_Item lid f) = update_line_item d lid f"
| "exec d (Insert_Settlement st) = insert_settlement d st"
| "exec d (Update_Settlement sid f) = update_settlement d sid f"
| "exec d (Insert_Settlement_Leg l) = insert_settlement_leg d l"
| "exec d (Update_Settlement_Leg lid f) = update_settlement_leg d lid f"
| "exec d (Insert_Pricing_Quote q) = insert_pricing_quote d q"
| "exec d (Update_Pricing_Quote qid f) = update_pricing_quote d qid f"
| "exec d (Insert_Decision r) = map_sum id snd (insert_decision d r)"
| "exec d (Update_Decision_Ledger form p f) = map_sum id snd (update_decision_ledger d form p f)"
| "exec d (Delete_Decision_Ledger form p) = map_sum id snd (delete_decision_ledger d form p)"

text \<open>Statements run one after the other, each in its own transaction: a statement
  that fails leaves the database as it was and the next one runs on it.\<close>

fun run :: "db \<Rightarrow> stmt list \<Rightarrow> db" where
  "run d [] = d"
| "run d (s # ss) = (case exec d s of Inl e \<Rightarrow> run d ss | Inr d' \<Rightarrow> run d' ss)"

text \<open>The seed accounts of the schema, the stored row of an invoice of \<open>a\<close> cents from
  SUP-001 to BUY-001, and the values of the INSERT that submits it with the amount
  \<open>r\<close>.\<close>

definition seed_db :: db where
  "seed_db = empty_db\<lparr>accounts := [''SUP-001'', ''SUP-002'', ''BUY-001'', ''BUY-002'', ''CAP-001'']\<rparr>"

definition sample_invoice :: "int \<Rightarrow> invoice" where
  "sample_invoice a =
     \<lparr>inv_id = ''INV-1'', inv_supplier_id = ''SUP-001'', inv_buyer_id = ''BUY-001'',
      inv_amount = a, inv_currency = ''USD'', inv_terms = 30, inv_status = ''PENDING'',
      inv_fraud_score = None, inv_fraud_score_calculated_at = None,
      inv_invoice_hash = ''h1'', inv_accepted_at = None, inv_settled_at = None\<rparr>"

definition sample_values :: "rat \<Rightarrow> rat invoice_of" where
  "sample_values r =
     \<lparr>inv_id = ''INV-1'', inv_supplier_id = ''SUP-001'', inv_buyer_id = ''BUY-001'',
      inv_amount = r, inv_currency = ''USD'', inv_terms = 30, inv_status = ''PENDING'',
      inv_fraud_score = None, inv_fraud_score_calculated_at = None,
      inv_invoice_hash = ''h1'', inv_accepted_at = None, inv_settled_at = None\<rparr>"

text \<open>The invoice INV-1 of 50 000.00, submitted and then accepted.\<close>

definition accepted_db :: db where
  "accepted_db = run seed_db [Insert_Invoice (sample_values 50000),
                              Update_Invoice_Status ''INV-1'' ''ACCEPTED'']"

text \<open>An invoice whose fraud score \<open>s\<close> was computed at time \<open>t\<close>.\<close>

definition scored_invoice :: "int \<Rightarrow> int \<Rightarrow> invoice" where
  "scored_invoice s t =
     (sample_invoice 5000000)\<lparr>inv_fraud_score := Some s, inv_fraud_score_calculated_at := Some t\<rparr>"

text \<open>The settlement of INV-1 at 6 percent over 30 days, started at time 0 and, when
  \<open>c\<close> is given, completed at time \<open>c\<close>.\<close>

definition sample_settlement :: "int option \<Rightarrow> settlement" where
  "sample_settlement c =
     \<lparr>st_id = ''SET-1'', st_invoice_id = ''INV-1'', st_supplier_id = ''SUP-001'',
      st_buyer_id = ''BUY-001'', st_capital_provider_id = ''CAP-001'',
      st_invoice_amount = 5000000, st_discount_rate = 6000000, st_buyer_cost = 5024658,
      st_started_at = 0, st_completed_at = c,
      st_status = (if c = None then ''IN_PROGRESS'' else ''COMPLETED''),
      st_rail_used = Some ''RTP''\<rparr>"

definition in_progress_db :: db where
  "in_progress_db = run accepted_db [Insert_Settlement (sample_settlement None)]"

text \<open>The SET clause that records a completion at time \<open>c\<close>.\<close>

definition complete_at :: "int \<Rightarrow> settlement \<Rightarrow> settlement" where
  "complete_at c st = st\<lparr>st_completed_at := Some c, st_status := ''COMPLETED''\<rparr>"

text \<open>A leg of SET-1.\<close>

definition sample_leg :: "nat \<Rightarrow> string \<Rightarrow> string \<Rightarrow> int \<Rightarrow> settlement_leg" where
  "sample_leg n t acct a =
     \<lparr>leg_id = n, leg_settlement_id = ''SET-1'', leg_type = t, leg_account_id = acct,
      leg_amount = a, leg_transaction_id = ''TX''\<rparr>"

text \<open>SET-1 with the supplier credited 50 000.00, the buyer debited \<open>b\<close> and the capital
  provider advancing \<open>c\<close>.\<close>

definition three_legs_db :: "int \<Rightarrow> int \<Rightarrow> db" where
  "three_legs_db b c =
     run in_progress_db
       [Insert_Settlement_Leg (sample_leg 1 ''CREDIT'' ''SUP-001'' 5000000),
        Insert_Settlement_Leg (sample_leg 2 ''DEBIT'' ''BUY-001'' b),
        Insert_Settlement_Leg (sample_leg 3 ''ADVANCE'' ''CAP-001'' c)]"

text \<open>A quote for INV-1 created at time \<open>t\<close> and expiring \<open>ttl\<close> microseconds later.\<close>

definition sample_quote :: "int \<Rightarrow> int \<Rightarrow> pricing_quote" where
  "sample_quote t ttl =
     \<lparr>pq_id = 1, pq_invoice_id = ''INV-1'', pq_amount = 5000000, pq_terms = 30,
      pq_discount_rate = 6000000, pq_total_cost = 5024658, pq_created_at = t,
      pq_expires_at = t + ttl, pq_used = False, pq_used_at = None\<rparr>"

subsection \<open>Tables that satisfy their constraints\<close>

text \<open>The primary key, the unique keys and the row checks of each table, as
  predicates on a database.\<close>

definition settlements_ok :: "db \<Rightarrow> bool" where
  "settlements_ok d =
     (distinct (map st_id (settlements d)) \<and> distinct (map st_invoice_id (settlements d)) \<and>
      list_all (\<lambda>s. check_settlement_row s = None) (settlements d))"

definition settlement_legs_ok :: "db \<Rightarrow> bool" where
  "settlement_legs_ok d =
     (distinct (map leg_id (settlement_legs d)) \<and>
      distinct (map (\<lambda>x. (leg_settlement_id x, leg_type x)) (settlement_legs d)) \<and>
      list_all (\<lambda>l. check_leg_row l = None) (settlement_legs d))"

definition pricing_quotes_ok :: "db \<Rightarrow> bool" where
  "pricing_quotes_ok d =
     (distinct (map pq_id (pricing_quotes d)) \<and>
      list_all (\<lambda>q. check_quote_row q = None) (pricing_quotes d))"

definition line_items_ok :: "db \<Rightarrow> bool" where
  "line_items_ok d =
     (distinct (map li_id (line_items d)) \<and>
      distinct (map (\<lambda>x. (li_invoice_id x, li_line_number x)) (line_items d)) \<and>
      list_all (\<lambda>x. check_line_item_row x = None) (line_items d))"

definition constraints_ok :: "db \<Rightarrow> bool" where
  "constraints_ok d = (settlements_ok d \<and> settlement_legs_ok d \<and> pricing_quotes_ok d \<and> line_items_ok d)"

text \<open>The databases that statements can produce, starting from empty tables and any
  set of accounts.\<close>

definition reachable_db :: "string list \<Rightarrow> stmt list \<Rightarrow> db" where
  "reachable_db acs ss = run (empty_db\<lparr>accounts := acs\<rparr>) ss"

text \<open>INV-1 set to SETTLED by an UPDATE, with no settlement written.\<close>

definition settled_db :: db where
  "settled_db = run accepted_db [Update_Invoice_Status ''INV-1'' ''SETTLED'']"

definition seed_accounts :: "string list" where
  "seed_accounts = [''SUP-001'', ''SUP-002'', ''BUY-001'', ''BUY-002'', ''CAP-001'']"

text \<open>The statements that record the settlement of INV-1 and its three legs.\<close>

definition three_legs_stmts :: "stmt list" where
  "three_legs_stmts =
     [Insert_Invoice (sample_values 50000), Update_Invoice_Status ''INV-1'' ''ACCEPTED'',
      Insert_Settlement (sample_settlement None),
      Insert_Settlement_Leg (sample_leg 1 ''CREDIT'' ''SUP-001'' 5000000),
      Insert_Settlement_Leg (sample_leg 2 ''DEBIT'' ''BUY-001'' 5024658),
      Insert_Settlement_Leg (sample_leg 3 ''ADVANCE'' ''CAP-001'' 5000000)]"

text \<open>The statements that record the settlement of INV-1 and its completion after 4.2
  seconds.\<close>

definition completed_stmts :: "stmt list" where
  "completed_stmts =
     [Insert_Invoice (sample_values 50000), Update_Invoice_Status ''INV-1'' ''ACCEPTED'',
      Insert_Settlement (sample_settlement None),
      Update_Settlement ''SET-1'' (complete_at 4200000)]"

text \<open>The statements that store a quote for INV-1 with the full five minutes.\<close>

definition quote_stmts :: "stmt list" where
  "quote_stmts =
     [Insert_Invoice (sample_values 50000), Update_Invoice_Status ''INV-1'' ''ACCEPTED'',
      Insert_Pricing_Quote (sample_quote 0 300000000)]"

text \<open>The UPDATE and DELETE statements on the decision ledger.\<close>

fun is_ledger_update_or_delete :: "stmt \<Rightarrow> bool" where
  "is_ledger_update_or_delete (Update_Decision_Ledger form p f) = True"
| "is_ledger_update_or_delete (Delete_Decision_Ledger form p) = True"
| "is_ledger_update_or_delete s = False"

text \<open>A decision record, a ledger that holds it, and two statements that try to
  rewrite and to remove it.\<close>

definition sample_decision :: "nat \<Rightarrow> decision_record" where
  "sample_decision n =
     \<lparr>dr_id = n, dr_invariant_id = ''inv_002_valid_amounts'', dr_check_type = ''PRE'',
      dr_result = True, dr_action = ''PROCEED'', dr_error_message = None,
      dr_actor = Some ''system:invoice_service'', dr_timestamp = 0, dr_signature = ''sig'',
      dr_previous_record_hash = None\<rparr>"

definition ledger_db :: db where
  "ledger_db = run seed_db [Insert_Decision (sample_decision 1)]"

definition tamper_stmts :: "stmt list" where
  "tamper_stmts =
     [Update_Decision_Ledger Plain (\<lambda>r. True) (\<lambda>r. r\<lparr>dr_result := False, dr_action := ''FREEZE''\<rparr>),
      Delete_Decision_Ledger Plain (\<lambda>r. dr_id r = 1),
      Update_Decision_Ledger Returning (\<lambda>r. True) (\<lambda>r. r\<lparr>dr_result := False\<rparr>),
      Delete_Decision_Ledger In_With (\<lambda>r. True)]"

text \<open>Line items inserted by separate single-row statements, stopping at the first
  statement that fails.\<close>

fun insert_each :: "db \<Rightarrow> line_item list \<Rightarrow> sql_error + db" where
  "insert_each d [] = Inr d"
| "insert_each d (li # lis) =
     (case insert_line_items d [li] of Inl e \<Rightarrow> Inl e | Inr d' \<Rightarrow> insert_each d' lis)"

text \<open>A line item of INV-1, and INV-1 submitted for 100.00.\<close>

definition sample_item :: "nat \<Rightarrow> int \<Rightarrow> int \<Rightarrow> line_item" where
  "sample_item n qty price =
     \<lparr>li_id = n, li_invoice_id = ''INV-1'', li_description = ''item'', li_quantity = qty,
      li_unit_price = price, li_line_number = int n\<rparr>"

definition pending_db :: db where
  "pending_db = run seed_db [Insert_Invoice (sample_values 100)]"

definition line_item_stmts :: "stmt list" where
  "line_item_stmts =
     [Insert_Invoice (sample_values 100),
      Insert_Line_Items [sample_item 11 1 5000, sample_item 12 1 5000]]"

text \<open>INV-1 of 100.00 with line items of 99.99 and 0.02, and the SET clause that
  changes a unit price.\<close>

definition within_cent_db :: db where
  "within_cent_db = pending_db\<lparr>line_items := [sample_item 11 1 9999, sample_item 12 1 2]\<rparr>"

definition set_unit_price :: "int \<Rightarrow> line_item \<Rightarrow> line_item" where
  "set_unit_price p li = li\<lparr>li_unit_price := p\<rparr>"

section \<open>Verified properties\<close>

subsection \<open>The sample rows\<close>

lemmas invoice_checks = invoices_amount_check_def invoices_currency_check_def invoices_terms_check_def
      invoices_status_check_def different_parties_def valid_fraud_score_def

lemma round_of_int: "round_half_away_from_zero (of_int c) = c"
proof -
  have "\<lfloor>(of_int c :: rat) + 1 / 2\<rfloor> = c" by (rule floor_unique) simp_all
  moreover have "\<lfloor>- (of_int c :: rat) + 1 / 2\<rfloor> = - c"
    using floor_unique [of "- c" "- (of_int c :: rat) + 1 / 2"] by simp
  ultimately show ?thesis by (simp add: round_half_away_from_zero_def)
qed

lemma numeric_15_2_cents:
  "numeric_15_2 (of_int c / 100) = (if \<bar>c\<bar> \<ge> 10 ^ 15 then Inl Numeric_Overflow else Inr c)"
  by (simp add: numeric_15_2_def round_of_int)

lemma coerce_sample_values:
  "numeric_15_2 r = Inr c \<Longrightarrow> coerce_invoice (sample_values r) = Inr (sample_invoice c)"
  by (simp add: coerce_invoice_def sample_values_def sample_invoice_def varchar_def)

lemma check_sample_invoice:
  "check_invoice_row (sample_invoice c) =
     (if invoices_amount_check c then None else Some (Check_Violation ''invoices_amount_check''))"
  by (simp add: check_invoice_row_def sample_invoice_def invoices_currency_check_def
      invoices_terms_check_def invoices_status_check_def different_parties_def valid_fraud_score_def)

lemma keys_sample_invoice: "check_invoice_keys seed_db (sample_invoice c) = None"
  by (simp add: check_invoice_keys_def sample_invoice_def seed_db_def empty_db_def)

lemma insert_sample_values:
  assumes "numeric_15_2 r = Inr c" "invoices_amount_check c"
  shows "insert_invoice seed_db (sample_values r) = Inr (seed_db\<lparr>invoices := [sample_invoice c]\<rparr>)"
proof -
  have "invoices seed_db = []" by (simp add: seed_db_def empty_db_def)
  with assms show ?thesis
    by (simp add: insert_invoice_def coerce_sample_values check_sample_invoice keys_sample_invoice)
qed

lemma insert_sample_cents:
  assumes "invoices_amount_check c"
  shows "insert_invoice seed_db (sample_values (of_int c / 100))
           = Inr (seed_db\<lparr>invoices := [sample_invoice c]\<rparr>)"
proof -
  from assms have "numeric_15_2 (of_int c / 100) = Inr c"
    by (simp add: numeric_15_2_cents invoices_amount_check_def)
  from insert_sample_values [OF this assms] show ?thesis .
qed

lemma accepted_db_eq:
  "accepted_db = seed_db\<lparr>invoices := [(sample_invoice 5000000)\<lparr>inv_status := ''ACCEPTED''\<rparr>]\<rparr>"
proof -
  have "insert_invoice seed_db (sample_values 50000) = Inr (seed_db\<lparr>invoices := [sample_invoice 5000000]\<rparr>)"
    using insert_sample_cents [of 5000000] by (simp add: invoices_amount_check_def)
  then show ?thesis
    by (simp add: accepted_db_def update_invoice_status_def invoices_status_check_def)
       (simp add: sample_invoice_def)
qed

lemma check_sample_settlement_None: "check_settlement_row (sample_settlement None) = None"
  by (simp add: check_settlement_row_def sample_settlement_def capital_profit_def duration_seconds_def
       settlements_status_check_def settlement_duration_check_def)

lemma keys_sample: "check_settlement_keys accepted_db [] (sample_settlement c) = None"
  by (simp add: check_settlement_keys_def accepted_db_eq seed_db_def empty_db_def
      sample_settlement_def sample_invoice_def)

lemma settlements_accepted: "settlements accepted_db = []"
  by (simp add: accepted_db_eq seed_db_def empty_db_def)

lemma in_progress_db_eq:
  "in_progress_db = accepted_db\<lparr>settlements := [sample_settlement None]\<rparr>"
  by (simp add: in_progress_db_def insert_settlement_def check_sample_settlement_None
      keys_sample settlements_accepted)

lemma in_progress_fields:
  "accounts in_progress_db = [''SUP-001'', ''SUP-002'', ''BUY-001'', ''BUY-002'', ''CAP-001'']"
  "settlements in_progress_db = [sample_settlement None]"
  "settlement_legs in_progress_db = []"
  by (simp_all add: in_progress_db_eq accepted_db_eq seed_db_def empty_db_def)

lemma sample_leg_sel [simp]:
  "leg_id (sample_leg n t a x) = n" "leg_settlement_id (sample_leg n t a x) = ''SET-1''"
  "leg_type (sample_leg n t a x) = t" "leg_account_id (sample_leg n t a x) = a"
  "leg_amount (sample_leg n t a x) = x"
  by (simp_all add: sample_leg_def)

lemma sample_settlement_sel [simp]:
  "st_id (sample_settlement c) = ''SET-1''" "st_invoice_id (sample_settlement c) = ''INV-1''"
  by (simp_all add: sample_settlement_def)

lemma three_legs_db_eq:
  assumes "0 < b" "0 < c"
  shows "three_legs_db b c = in_progress_db\<lparr>settlement_legs :=
     [sample_leg 1 ''CREDIT'' ''SUP-001'' 5000000, sample_leg 2 ''DEBIT'' ''BUY-001'' b,
      sample_leg 3 ''ADVANCE'' ''CAP-001'' c]\<rparr>"
  using assms
  by (simp add: three_legs_db_def insert_settlement_leg_def check_leg_row_def check_leg_keys_def
      settlement_legs_leg_type_check_def settlement_legs_amount_check_def in_progress_fields)

lemma three_legs_totals:
  assumes "0 < b" "0 < c"
  shows "total_credits (three_legs_db b c) = 5000000" "total_debits (three_legs_db b c) = b"
    "total_advances (three_legs_db b c) = c"
  using assms by (simp_all add: three_legs_db_eq total_credits_def total_debits_def total_advances_def sum_legs_def)


subsection \<open>Amount range at submission\<close>

lemma insert_invoice_result:
  assumes "insert_invoice d v = Inr d'"
  shows "\<exists>i. coerce_invoice v = Inr i \<and> check_invoice_row i = None \<and>
             check_invoice_keys d i = None \<and> d' = d\<lparr>invoices := invoices d @ [i]\<rparr>"
  using assms by (auto simp: insert_invoice_def split: sum.splits option.splits)

lemma insert_invoice_accepts:
  assumes "coerce_invoice v = Inr i" "check_invoice_row i = None" "check_invoice_keys d i = None"
  shows "insert_invoice d v = Inr (d\<lparr>invoices := invoices d @ [i]\<rparr>)"
  using assms by (simp add: insert_invoice_def)

lemma coerce_invoice_amount:
  assumes "coerce_invoice v = Inr i"
  shows "numeric_15_2 (inv_amount v) = Inr (inv_amount i)"
  using assms by (auto simp: coerce_invoice_def split: sum.splits if_splits)

lemma coerce_invoice_swap:
  assumes "coerce_invoice v = Inr i" "numeric_15_2 r = Inr c"
  shows "coerce_invoice (v\<lparr>inv_amount := r\<rparr>) = Inr (i\<lparr>inv_amount := c\<rparr>)"
  using assms by (auto simp: coerce_invoice_def split: sum.splits if_splits)

lemma check_invoice_row_amount:
  "check_invoice_row i = None \<Longrightarrow> invoices_amount_check (inv_amount i)"
  by (auto simp: check_invoice_row_def split: if_splits)

lemma check_invoice_row_swap:
  assumes "check_invoice_row i = None" "invoices_amount_check c"
  shows "check_invoice_row (i\<lparr>inv_amount := c\<rparr>) = None"
  using assms by (auto simp: check_invoice_row_def different_parties_def valid_fraud_score_def split: if_splits)

lemma check_invoice_keys_swap: "check_invoice_keys d (i\<lparr>inv_amount := c\<rparr>) = check_invoice_keys d i"
  by (simp add: check_invoice_keys_def)

lemma numeric_15_2_in_range:
  "(\<exists>c. numeric_15_2 r = Inr c \<and> invoices_amount_check c) \<longleftrightarrow>
     10000 \<le> round_half_away_from_zero (r * 100) \<and> round_half_away_from_zero (r * 100) \<le> 1000000000"
  by (auto simp: numeric_15_2_def invoices_amount_check_def)

lemma insert_invoice_stored_amount:
  assumes "insert_invoice d v = Inr d'"
  shows "\<exists>i. d' = d\<lparr>invoices := invoices d @ [i]\<rparr> \<and>
             inv_amount i = round_half_away_from_zero (inv_amount v * 100) \<and>
             10000 \<le> inv_amount i \<and> inv_amount i \<le> 1000000000"
proof -
  from insert_invoice_result [OF assms] obtain i where i: "coerce_invoice v = Inr i"
    "check_invoice_row i = None" "d' = d\<lparr>invoices := invoices d @ [i]\<rparr>" by blast
  from coerce_invoice_amount [OF i(1)] have "inv_amount i = round_half_away_from_zero (inv_amount v * 100)"
    by (auto simp: numeric_15_2_def split: if_splits)
  with check_invoice_row_amount [OF i(2)] i(3) show ?thesis
    by (auto simp: invoices_amount_check_def)
qed

lemma insert_invoice_amount_iff:
  assumes ok: "insert_invoice d (v\<lparr>inv_amount := r0\<rparr>) = Inr d0"
  shows "(\<exists>d'. insert_invoice d v = Inr d') \<longleftrightarrow>
     10000 \<le> round_half_away_from_zero (inv_amount v * 100) \<and>
     round_half_away_from_zero (inv_amount v * 100) \<le> 1000000000"
proof
  assume "\<exists>d'. insert_invoice d v = Inr d'"
  then obtain d' where "insert_invoice d v = Inr d'" ..
  from insert_invoice_stored_amount [OF this] show
    "10000 \<le> round_half_away_from_zero (inv_amount v * 100) \<and>
     round_half_away_from_zero (inv_amount v * 100) \<le> 1000000000" by auto
next
  assume "10000 \<le> round_half_away_from_zero (inv_amount v * 100) \<and>
     round_half_away_from_zero (inv_amount v * 100) \<le> 1000000000"
  then obtain c where c: "numeric_15_2 (inv_amount v) = Inr c" "invoices_amount_check c"
    using numeric_15_2_in_range [of "inv_amount v"] by blast
  from insert_invoice_result [OF ok] obtain i0 where i0:
    "coerce_invoice (v\<lparr>inv_amount := r0\<rparr>) = Inr i0" "check_invoice_row i0 = None"
    "check_invoice_keys d i0 = None" by blast
  from coerce_invoice_swap [OF i0(1) c(1)] have "coerce_invoice v = Inr (i0\<lparr>inv_amount := c\<rparr>)"
    by simp
  from insert_invoice_accepts [OF this check_invoice_row_swap [OF i0(2) c(2)]] i0(3)
  show "\<exists>d'. insert_invoice d v = Inr d'" by (simp add: check_invoice_keys_swap)
qed

lemma insert_invoice_rejects:
  assumes "\<not> (10000 \<le> round_half_away_from_zero (inv_amount v * 100) \<and>
     round_half_away_from_zero (inv_amount v * 100) \<le> 1000000000)"
  shows "\<exists>e. insert_invoice d v = Inl e"
proof (cases "insert_invoice d v")
  case (Inl e)
  then show ?thesis by blast
next
  case (Inr d')
  from insert_invoice_stored_amount [OF this] assms show ?thesis by auto
qed

lemma whole_cents_range:
  "round_half_away_from_zero (of_int c / 100 * 100) = c"
  "(10000 \<le> c \<and> c \<le> 1000000000) \<longleftrightarrow> (100 \<le> (of_int c / 100 :: rat) \<and> (of_int c / 100 :: rat) \<le> 10000000)"
proof -
  show "round_half_away_from_zero (of_int c / 100 * 100) = c" by (simp add: round_of_int)
  have "(100 \<le> (of_int c / 100 :: rat)) = (of_int 10000 \<le> (of_int c :: rat))" by simp
  moreover have "((of_int c / 100 :: rat) \<le> 10000000) = ((of_int c :: rat) \<le> of_int 1000000000)" by simp
  ultimately show "(10000 \<le> c \<and> c \<le> 1000000000) \<longleftrightarrow>
      (100 \<le> (of_int c / 100 :: rat) \<and> (of_int c / 100 :: rat) \<le> 10000000)"
    by (simp only: of_int_le_iff)
qed

lemma pre_check_rounds_in_range:
  assumes "inv_002_pre_check r"
  shows "10000 \<le> round_half_away_from_zero (r * 100) \<and> round_half_away_from_zero (r * 100) \<le> 1000000000"
proof -
  from assms have r: "100 \<le> r" "r \<le> 10000000" by (simp_all add: inv_002_pre_check_def)
  then have nn: "0 \<le> r * 100" by simp
  have "of_int 10000 \<le> r * 100 + 1 / 2" using r by simp
  then have lo: "10000 \<le> \<lfloor>r * 100 + 1 / 2\<rfloor>" by (simp only: le_floor_iff)
  have "r * 100 + 1 / 2 < of_int 1000000001" using r by simp
  then have "\<lfloor>r * 100 + 1 / 2\<rfloor> < 1000000001" by (simp only: floor_less_iff)
  with lo nn show ?thesis by (simp add: round_half_away_from_zero_def)
qed

lemma submit_invoice_iff:
  assumes ok: "insert_invoice d (v\<lparr>inv_amount := r0\<rparr>) = Inr d0"
  shows "(\<exists>d'. submit_invoice d v = Inr d') \<longleftrightarrow> 100 \<le> inv_amount v \<and> inv_amount v \<le> 10000000"
proof (cases "inv_002_pre_check (inv_amount v)")
  case True
  from pre_check_rounds_in_range [OF True] insert_invoice_amount_iff [OF ok]
  have "\<exists>d'. insert_invoice d v = Inr d'" by simp
  with True show ?thesis by (simp add: submit_invoice_def inv_002_pre_check_def)
next
  case False
  then show ?thesis by (auto simp: submit_invoice_def inv_002_pre_check_def)
qed

lemma numeric_99995: "numeric_15_2 (99995 / 1000) = Inr 10000"
proof -
  have "\<lfloor>(19999 :: rat) / 2 + 1 / 2\<rfloor> = 10000" by (rule floor_unique) simp_all
  then show ?thesis by (simp add: numeric_15_2_def round_half_away_from_zero_def)
qed

lemma numeric_9999: "numeric_15_2 (9999 / 100) = Inr 9999"
  using numeric_15_2_cents [of 9999] by simp

lemma insert_9999:
  "insert_invoice seed_db (sample_values (9999 / 100)) = Inl (Check_Violation ''invoices_amount_check'')"
  by (simp add: insert_invoice_def coerce_sample_values [OF numeric_9999] check_sample_invoice
      invoices_amount_check_def)

lemma insert_100: "insert_invoice seed_db (sample_values 100) = Inr (seed_db\<lparr>invoices := [sample_invoice 10000]\<rparr>)"
  using insert_sample_cents [of 10000] by (simp add: invoices_amount_check_def)

lemma insert_10M:
  "insert_invoice seed_db (sample_values 10000000) = Inr (seed_db\<lparr>invoices := [sample_invoice 1000000000]\<rparr>)"
  using insert_sample_cents [of 1000000000] by (simp add: invoices_amount_check_def)

lemma insert_99995:
  "insert_invoice seed_db (sample_values (99995 / 1000)) = Inr (seed_db\<lparr>invoices := [sample_invoice 10000]\<rparr>)"
  by (rule insert_sample_values [OF numeric_99995]) (simp add: invoices_amount_check_def)

lemma submit_99995:
  "submit_invoice seed_db (sample_values (99995 / 1000)) = Inl (Invariant_Violation ''inv_002_valid_amounts'')"
  by (simp add: submit_invoice_def inv_002_pre_check_def sample_values_def)

lemma sample_values_amount: "(sample_values r)\<lparr>inv_amount := r'\<rparr> = sample_values r'"
  by (simp add: sample_values_def)

text \<open>
  Claim C6. An INSERT rounds the amount to the cent, as the column stores it, and then
  accepts the row, when its other values are acceptable, exactly when the stored
  amount lies in the closed interval from 100.00 to 10 000 000.00. For an amount
  written in whole cents that is exactly when the amount itself lies in the interval,
  and a submission under the pre-check of INV-002, which reads the amount as it is
  submitted, accepts exactly the amounts of the interval whatever their decimals. The
  other values are acceptable when the same values with the amount 100.00 are
  accepted. An amount outside the interval is refused with an error, and a refused
  statement returns no database, so no row is created; an accepted one appends one
  row, with the rounded amount. At the seed database 99.99 is refused with the check
  violation of the amount column, and 100.00 and 10 000 000.00 are accepted; 99.995 is
  stored as 100.00 by the INSERT alone and is refused by the pre-check.
\<close>

theorem invoice_amount_closed_interval:
  "((\<exists>d0. insert_invoice d (v\<lparr>inv_amount := 100\<rparr>) = Inr d0) \<longrightarrow>
      ((\<exists>d'. insert_invoice d v = Inr d') \<longleftrightarrow>
         10000 \<le> round_half_away_from_zero (inv_amount v * 100) \<and>
         round_half_away_from_zero (inv_amount v * 100) \<le> 1000000000))
   \<and> ((\<exists>d0. insert_invoice d (v\<lparr>inv_amount := 100\<rparr>) = Inr d0) \<and> inv_amount v = of_int c / 100 \<longrightarrow>
      ((\<exists>d'. insert_invoice d v = Inr d') \<longleftrightarrow> 100 \<le> inv_amount v \<and> inv_amount v \<le> 10000000))
   \<and> ((\<exists>d0. insert_invoice d (v\<lparr>inv_amount := 100\<rparr>) = Inr d0) \<longrightarrow>
      ((\<exists>d'. submit_invoice d v = Inr d') \<longleftrightarrow> 100 \<le> inv_amount v \<and> inv_amount v \<le> 10000000))
   \<and> (\<not> (10000 \<le> round_half_away_from_zero (inv_amount v * 100) \<and>
           round_half_away_from_zero (inv_amount v * 100) \<le> 1000000000) \<longrightarrow>
        (\<exists>e. insert_invoice d v = Inl e))
   \<and> (\<not> (100 \<le> inv_amount v \<and> inv_amount v \<le> 10000000) \<longrightarrow>
        submit_invoice d v = Inl (Invariant_Violation ''inv_002_valid_amounts''))
   \<and> (\<forall>d'. insert_invoice d v = Inr d' \<longrightarrow>
        (\<exists>i. d' = d\<lparr>invoices := invoices d @ [i]\<rparr> \<and>
             inv_amount i = round_half_away_from_zero (inv_amount v * 100) \<and>
             10000 \<le> inv_amount i \<and> inv_amount i \<le> 1000000000))
   \<and> insert_invoice seed_db (sample_values (9999 / 100)) = Inl (Check_Violation ''invoices_amount_check'')
   \<and> insert_invoice seed_db (sample_values 100) = Inr (seed_db\<lparr>invoices := [sample_invoice 10000]\<rparr>)
   \<and> insert_invoice seed_db (sample_values 10000000)
        = Inr (seed_db\<lparr>invoices := [sample_invoice 1000000000]\<rparr>)
   \<and> insert_invoice seed_db (sample_values (99995 / 1000))
        = Inr (seed_db\<lparr>invoices := [sample_invoice 10000]\<rparr>)
   \<and> submit_invoice seed_db (sample_values (99995 / 1000))
        = Inl (Invariant_Violation ''inv_002_valid_amounts'')"
proof -
  let ?ok = "\<exists>d0. insert_invoice d (v\<lparr>inv_amount := 100\<rparr>) = Inr d0"
  let ?in = "10000 \<le> round_half_away_from_zero (inv_amount v * 100) \<and>
         round_half_away_from_zero (inv_amount v * 100) \<le> 1000000000"
  have a: "?ok \<longrightarrow> ((\<exists>d'. insert_invoice d v = Inr d') \<longleftrightarrow> ?in)"
    using insert_invoice_amount_iff [where d = d and v = v] by blast
  have b: "?ok \<and> inv_amount v = of_int c / 100 \<longrightarrow>
      ((\<exists>d'. insert_invoice d v = Inr d') \<longleftrightarrow> 100 \<le> inv_amount v \<and> inv_amount v \<le> 10000000)"
  proof
    assume h: "?ok \<and> inv_amount v = of_int c / 100"
    then have am: "inv_amount v = of_int c / 100" and ok: "?ok" by simp_all
    from am have "inv_amount v * 100 = of_int c" by simp
    with a ok have "(\<exists>d'. insert_invoice d v = Inr d') \<longleftrightarrow> 10000 \<le> c \<and> c \<le> 1000000000"
      by (simp add: round_of_int)
    then show "(\<exists>d'. insert_invoice d v = Inr d') \<longleftrightarrow> 100 \<le> inv_amount v \<and> inv_amount v \<le> 10000000"
      unfolding am by (simp only: whole_cents_range(2))
  qed
  have s: "?ok \<longrightarrow>
      ((\<exists>d'. submit_invoice d v = Inr d') \<longleftrightarrow> 100 \<le> inv_amount v \<and> inv_amount v \<le> 10000000)"
    using submit_invoice_iff [where d = d and v = v] by blast
  have r: "\<not> ?in \<longrightarrow> (\<exists>e. insert_invoice d v = Inl e)"
    using insert_invoice_rejects [where d = d and v = v] by blast
  have sr: "\<not> (100 \<le> inv_amount v \<and> inv_amount v \<le> 10000000) \<longrightarrow>
        submit_invoice d v = Inl (Invariant_Violation ''inv_002_valid_amounts'')"
    by (simp add: submit_invoice_def inv_002_pre_check_def)
  have st: "\<forall>d'. insert_invoice d v = Inr d' \<longrightarrow>
        (\<exists>i. d' = d\<lparr>invoices := invoices d @ [i]\<rparr> \<and>
             inv_amount i = round_half_away_from_zero (inv_amount v * 100) \<and>
             10000 \<le> inv_amount i \<and> inv_amount i \<le> 1000000000)"
    using insert_invoice_stored_amount [where d = d and v = v] by blast
  from a b s r sr st insert_9999 insert_100 insert_10M insert_99995 submit_99995
  show ?thesis by blast
qed

theorem invoice_amount_closed_interval_witness:
  "(\<exists>d0. insert_invoice seed_db ((sample_values (9999 / 100))\<lparr>inv_amount := 100\<rparr>) = Inr d0)
   \<and> inv_amount (sample_values (9999 / 100)) = of_int 9999 / 100
   \<and> \<not> (100 \<le> inv_amount (sample_values (9999 / 100)) \<and> inv_amount (sample_values (9999 / 100)) \<le> 10000000)
   \<and> \<not> (\<exists>d'. insert_invoice seed_db (sample_values (9999 / 100)) = Inr d')
   \<and> \<not> (\<exists>d'. submit_invoice seed_db (sample_values (9999 / 100)) = Inr d')
   \<and> (\<exists>d'. insert_invoice seed_db (sample_values 100) = Inr d')
   \<and> (\<exists>d'. submit_invoice seed_db (sample_values 100) = Inr d')"
proof -
  have ok: "\<And>r. \<exists>d0. insert_invoice seed_db ((sample_values r)\<lparr>inv_amount := 100\<rparr>) = Inr d0"
    by (simp add: sample_values_amount insert_100)
  have am: "inv_amount (sample_values (9999 / 100)) = of_int 9999 / 100"
    "inv_amount (sample_values 100) = of_int 10000 / 100"
    by (simp_all add: sample_values_def)
  have out: "\<not> (100 \<le> inv_amount (sample_values (9999 / 100)) \<and> inv_amount (sample_values (9999 / 100)) \<le> 10000000)"
    by (simp add: sample_values_def)
  have inn: "100 \<le> inv_amount (sample_values 100) \<and> inv_amount (sample_values 100) \<le> 10000000"
    by (simp add: sample_values_def)
  note t1 = invoice_amount_closed_interval [of seed_db "sample_values (9999 / 100)" 9999]
  note t2 = invoice_amount_closed_interval [of seed_db "sample_values 100" 10000]
  from t1 ok [of "9999 / 100"] am(1) out
  have n1: "\<not> (\<exists>d'. insert_invoice seed_db (sample_values (9999 / 100)) = Inr d')"
    and n2: "\<not> (\<exists>d'. submit_invoice seed_db (sample_values (9999 / 100)) = Inr d')" by blast+
  from t2 ok [of 100] am(2) inn
  have p1: "\<exists>d'. insert_invoice seed_db (sample_values 100) = Inr d'"
    and p2: "\<exists>d'. submit_invoice seed_db (sample_values 100) = Inr d'" by blast+
  from ok [of "9999 / 100"] am(1) out n1 n2 p1 p2 show ?thesis by blast
qed

subsection \<open>The status FAILED\<close>

text \<open>
  Claim C4. The table of valid transitions lets an accepted invoice move to FAILED,
  and lets a failed one move to REJECTED and nowhere else. The status column of the
  schema does not admit the value: its check lists six statuses and FAILED is not one
  of them, so the transition of the accepted invoice INV-1 to FAILED passes the
  pre-check of INV-101 and is then refused by the column check, and the plain UPDATE is
  refused the same way.
\<close>

theorem failed_status_not_storable:
  "inv_101_pre_check ''ACCEPTED'' ''FAILED''
   \<and> map_of ALLOWED_TRANSITIONS ''FAILED'' = Some [''REJECTED'']
   \<and> \<not> invoices_status_check ''FAILED''
   \<and> transition accepted_db ''INV-1'' ''FAILED'' = Inl (Check_Violation ''invoices_status_check'')
   \<and> update_invoice_status accepted_db ''INV-1'' ''FAILED'' = Inl (Check_Violation ''invoices_status_check'')"
  by (simp add: accepted_db_eq inv_101_pre_check_def ALLOWED_TRANSITIONS_def invoices_status_check_def
      transition_def update_invoice_status_def sample_invoice_def seed_db_def empty_db_def)

subsection \<open>The fraud threshold\<close>

lemma scored_pre_check: "inv_202_pre_check now (scored_invoice s t) \<longleftrightarrow> now - 86400000000 < t \<and> s < 7500"
  by (simp add: inv_202_pre_check_def scored_invoice_def)

lemma rollback_fraud_review:
  assumes "iid \<in> set (map inv_id (invoices d))"
  shows "\<exists>d'. inv_202_rollback d iid = Inr d' \<and>
            (\<forall>j\<in>set (invoices d'). inv_id j = iid \<longrightarrow> inv_status j = ''FRAUD_REVIEW'') \<and>
            settlements d' = settlements d \<and> settlement_legs d' = settlement_legs d"
  using assms
  by (auto simp: inv_202_rollback_def update_invoice_status_def invoices_status_check_def)

text \<open>
  Claim C5, as the catalogue has it. The pre-check of INV-202 lets an invoice proceed
  exactly when its fraud score is present, was computed less than 24 hours ago and is
  strictly below 0.75. A fresh score of 0.7499 proceeds; fresh scores of 0.75 and of
  0.7501 are both blocked. The rollback of the invariant puts a stored invoice into
  FRAUD_REVIEW and writes no settlement and no leg.
\<close>

theorem fraud_gate_strict_threshold:
  "(inv_202_pre_check now i \<longleftrightarrow>
      (\<exists>s t. inv_fraud_score i = Some s \<and> inv_fraud_score_calculated_at i = Some t \<and>
             now - 86400000000 < t \<and> s < 7500))
   \<and> inv_202_pre_check 0 (scored_invoice 7499 0)
   \<and> \<not> inv_202_pre_check 0 (scored_invoice 7500 0)
   \<and> \<not> inv_202_pre_check 0 (scored_invoice 7501 0)
   \<and> (iid \<in> set (map inv_id (invoices d)) \<longrightarrow>
        (\<exists>d'. inv_202_rollback d iid = Inr d' \<and>
            (\<forall>j\<in>set (invoices d'). inv_id j = iid \<longrightarrow> inv_status j = ''FRAUD_REVIEW'') \<and>
            settlements d' = settlements d \<and> settlement_legs d' = settlement_legs d))"
proof -
  have "inv_202_pre_check now i \<longleftrightarrow>
      (\<exists>s t. inv_fraud_score i = Some s \<and> inv_fraud_score_calculated_at i = Some t \<and>
             now - 86400000000 < t \<and> s < 7500)"
    by (auto simp: inv_202_pre_check_def split: option.splits)
  then show ?thesis
    using rollback_fraud_review [of iid d] by (simp add: scored_pre_check)
qed

theorem fraud_gate_strict_threshold_witness:
  "''INV-1'' \<in> set (map inv_id (invoices accepted_db))
   \<and> (\<exists>d'. inv_202_rollback accepted_db ''INV-1'' = Inr d' \<and>
         (\<forall>j\<in>set (invoices d'). inv_id j = ''INV-1'' \<longrightarrow> inv_status j = ''FRAUD_REVIEW'') \<and>
         settlements d' = settlements accepted_db)
   \<and> inv_202_pre_check 0 (scored_invoice 7499 0)"
proof -
  have m: "''INV-1'' \<in> set (map inv_id (invoices accepted_db))"
    by (simp add: accepted_db_eq sample_invoice_def)
  with fraud_gate_strict_threshold [of 0 "scored_invoice 7499 0" "''INV-1''" accepted_db]
  show ?thesis by blast
qed

text \<open>At a fresh score of exactly 0.75 the invoice is blocked although the score is
  not greater than 0.75.\<close>

theorem fraud_gate_boundary_counterexample:
  "\<not> (\<not> inv_202_pre_check 0 (scored_invoice 7500 0) \<longleftrightarrow> (7500::int) > 7500)"
  by (simp add: scored_pre_check)

subsection \<open>Pricing\<close>

lemma floor_half_bounds:
  fixes y :: rat
  shows "of_int \<lfloor>y + 1 / 2\<rfloor> - y \<le> 1 / 2" and "- 1 / 2 < of_int \<lfloor>y + 1 / 2\<rfloor> - y"
proof -
  have a: "of_int \<lfloor>y + 1 / 2\<rfloor> \<le> y + 1 / 2" by (rule of_int_floor_le)
  have b: "y + 1 / 2 < of_int \<lfloor>y + 1 / 2\<rfloor> + 1"
    using floor_correct [of "y + 1 / 2"] by simp
  from a show "of_int \<lfloor>y + 1 / 2\<rfloor> - y \<le> 1 / 2" by linarith
  from b show "- 1 / 2 < of_int \<lfloor>y + 1 / 2\<rfloor> - y" by linarith
qed

lemma rhaz_error: "\<bar>of_int (round_half_away_from_zero x) - x\<bar> \<le> 1 / 2"
proof (cases "0 \<le> x")
  case True
  then have eq: "round_half_away_from_zero x = \<lfloor>x + 1 / 2\<rfloor>"
    by (simp add: round_half_away_from_zero_def)
  show ?thesis unfolding eq using floor_half_bounds [of x] by linarith
next
  case False
  then have eq: "of_int (round_half_away_from_zero x) = - (of_int \<lfloor>- x + 1 / 2\<rfloor> :: rat)"
    by (simp add: round_half_away_from_zero_def)
  show ?thesis unfolding eq using floor_half_bounds [of "- x"] by linarith
qed

lemma rhaz_tie:
  assumes "\<bar>of_int (round_half_away_from_zero x) - x\<bar> = 1 / 2"
  shows "\<bar>x\<bar> < \<bar>of_int (round_half_away_from_zero x)\<bar>"
proof (cases "0 \<le> x")
  case True
  then have eq: "round_half_away_from_zero x = \<lfloor>x + 1 / 2\<rfloor>"
    by (simp add: round_half_away_from_zero_def)
  show ?thesis using assms True unfolding eq using floor_half_bounds [of x] by linarith
next
  case False
  then have eq: "of_int (round_half_away_from_zero x) = - (of_int \<lfloor>- x + 1 / 2\<rfloor> :: rat)"
    by (simp add: round_half_away_from_zero_def)
  show ?thesis using assms False unfolding eq using floor_half_bounds [of "- x"] by linarith
qed

lemma exact_example: "exact_cost 5000000 6000000 30 = 366800000 / 73"
  by (simp add: exact_cost_def)

lemma total_cost_example: "total_cost 5000000 6000000 30 = 5024658"
proof -
  have "\<lfloor>(733600073 :: rat) / 146\<rfloor> = 5024658"
    by (rule floor_unique) simp_all
  then show ?thesis
    by (simp add: total_cost_def exact_example round_half_away_from_zero_def)
qed

lemma exact_tie_example: "exact_cost 36500 500000 15 = 73015 / 2"
  by (simp add: exact_cost_def)

lemma total_cost_tie_example: "total_cost 36500 500000 15 = 36508"
proof -
  have "\<lfloor>(36508 :: rat)\<rfloor> = 36508"
    by (rule floor_unique) simp_all
  then show ?thesis
    by (simp add: total_cost_def exact_tie_example round_half_away_from_zero_def)
qed

text \<open>
  Claim C7. For every amount, discount rate and terms the quoted total cost is
  \<open>amount * (1 + discount_rate * terms / 365)\<close> rounded to the cent: it differs from the
  exact value by at most half a cent, and where the exact value lies half-way between
  two cents the quote is the one farther from zero. The generated column
  \<^verbatim>\<open>capital_profit\<close> of a settlement that charges the buyer the quoted cost is the
  quoted cost less the invoice amount. For 50 000.00 over 30 days at 6 percent the
  total cost is 50 246.58 and the profit 246.58.
\<close>

theorem quoted_total_cost:
  "total_cost a r t =
      round_half_away_from_zero (of_int a * (1 + (of_int r / 100000000) * of_int t / 365))
   \<and> \<bar>of_int (total_cost a r t) - exact_cost a r t\<bar> \<le> 1 / 2
   \<and> (\<bar>of_int (total_cost a r t) - exact_cost a r t\<bar> = 1 / 2 \<longrightarrow>
        \<bar>exact_cost a r t\<bar> < \<bar>of_int (total_cost a r t)\<bar>)
   \<and> (st_invoice_amount st = a \<and> st_buyer_cost st = total_cost a r t \<longrightarrow>
        capital_profit st = total_cost a r t - a)
   \<and> total_cost 5000000 6000000 30 = 5024658
   \<and> capital_profit (sample_settlement c) = 24658"
proof -
  have c1: "total_cost a r t =
      round_half_away_from_zero (of_int a * (1 + (of_int r / 100000000) * of_int t / 365))"
    by (simp add: total_cost_def exact_cost_def)
  have c2: "\<bar>of_int (total_cost a r t) - exact_cost a r t\<bar> \<le> 1 / 2"
    unfolding total_cost_def by (rule rhaz_error)
  have c3: "\<bar>of_int (total_cost a r t) - exact_cost a r t\<bar> = 1 / 2 \<longrightarrow>
        \<bar>exact_cost a r t\<bar> < \<bar>of_int (total_cost a r t)\<bar>"
    unfolding total_cost_def using rhaz_tie [of "exact_cost a r t"] by blast
  have c4: "st_invoice_amount st = a \<and> st_buyer_cost st = total_cost a r t \<longrightarrow>
        capital_profit st = total_cost a r t - a"
    by (simp add: capital_profit_def)
  have c5: "capital_profit (sample_settlement c) = 24658"
    by (simp add: capital_profit_def sample_settlement_def)
  from c1 c2 c3 c4 c5 total_cost_example show ?thesis by blast
qed

theorem quoted_total_cost_witness:
  "\<bar>of_int (total_cost 36500 500000 15) - exact_cost 36500 500000 15\<bar> = 1 / 2
   \<and> \<bar>exact_cost 36500 500000 15\<bar> < \<bar>of_int (total_cost 36500 500000 15)\<bar>
   \<and> st_invoice_amount (sample_settlement None) = 5000000
   \<and> st_buyer_cost (sample_settlement None) = total_cost 5000000 6000000 30
   \<and> capital_profit (sample_settlement None) = total_cost 5000000 6000000 30 - 5000000"
proof -
  have tie: "\<bar>of_int (total_cost 36500 500000 15) - exact_cost 36500 500000 15\<bar> = 1 / 2"
    by (simp add: total_cost_tie_example exact_tie_example)
  have st: "st_invoice_amount (sample_settlement None) = 5000000"
    "st_buyer_cost (sample_settlement None) = total_cost 5000000 6000000 30"
    by (simp_all add: sample_settlement_def total_cost_example)
  from tie st quoted_total_cost [of 36500 500000 15 "sample_settlement None" None]
    quoted_total_cost [of 5000000 6000000 30 "sample_settlement None" None]
  show ?thesis by blast
qed

subsection \<open>The ledger columns of the health view\<close>

text \<open>
  Claim C1. The view reports \<^verbatim>\<open>ledger_balanced\<close> exactly when the CREDIT legs and the
  DEBIT legs have the same total (a difference below 0.01 between two sums of cents is
  no difference); the ADVANCE legs are not read. With the supplier credited
  50 000.00, the buyer debited 49 000.00 and the capital provider advancing 1 000.00
  the reconciliation equation of INV-501 holds and the view reports an imbalance; with
  all three legs at 50 000.00 the equation fails by 50 000.00 and the view reports a
  balanced ledger.
\<close>

theorem ledger_balanced_ignores_advances:
  "(ledger_balanced d \<longleftrightarrow> total_credits d = total_debits d)
   \<and> inv_501_post_check (three_legs_db 4900000 100000)
   \<and> \<not> ledger_balanced (three_legs_db 4900000 100000)
   \<and> ledger_balanced (three_legs_db 5000000 5000000)
   \<and> \<not> inv_501_post_check (three_legs_db 5000000 5000000)"
proof -
  have "ledger_balanced d \<longleftrightarrow> total_credits d = total_debits d"
    by (auto simp: ledger_balanced_def)
  then show ?thesis
    by (simp add: ledger_balanced_def inv_501_post_check_def three_legs_totals)
qed

subsection \<open>The constraints hold in every reachable database\<close>

lemma distinct_map_replace:
  assumes "distinct (map pk rows)" "distinct (map k rows)"
    and "k new \<notin> set (map k (filter (\<lambda>r. pk r \<noteq> a) rows))"
  shows "distinct (map k (map (\<lambda>r. if pk r = a then new else r) rows))"
  using assms
proof (induction rows)
  case Nil
  then show ?case by simp
next
  case (Cons r rs)
  show ?case
  proof (cases "pk r = a")
    case True
    with Cons.prems(1) have "\<forall>x\<in>set rs. pk x \<noteq> a" by (fastforce simp: image_iff)
    then have same: "map (\<lambda>r. if pk r = a then new else r) rs = rs" "filter (\<lambda>r. pk r \<noteq> a) rs = rs"
      by (simp_all add: map_idI)
    with True Cons.prems show ?thesis by simp
  next
    case False
    from Cons.prems(3) False have n1: "k new \<noteq> k r"
      and n2: "k new \<notin> set (map k (filter (\<lambda>r. pk r \<noteq> a) rs))" by auto
    from Cons.prems have d: "distinct (map pk rs)" "distinct (map k rs)" and n3: "k r \<notin> set (map k rs)"
      by auto
    have "k r \<notin> set (map k (map (\<lambda>r. if pk r = a then new else r) rs))"
    proof
      assume "k r \<in> set (map k (map (\<lambda>r. if pk r = a then new else r) rs))"
      then obtain x where x: "x \<in> set rs" "k r = k (if pk x = a then new else x)" by auto
      show False
      proof (cases "pk x = a")
        case True
        with x n1 show False by simp
      next
        case False
        with x n3 show False by auto
      qed
    qed
    with Cons.IH [OF d n2] False show ?thesis by simp
  qed
qed

lemma list_all_map_replace:
  "list_all P rows \<Longrightarrow> P new \<Longrightarrow> list_all P (map (\<lambda>r. if pk r = a then new else r) rows)"
  by (induction rows) auto

lemma find_SomeD: "find P xs = Some x \<Longrightarrow> x \<in> set xs \<and> P x"
  by (induction xs) (auto split: if_splits)

lemma insert_settlement_ok:
  assumes "settlements_ok d" "insert_settlement d st = Inr d'"
  shows "settlements_ok d'" "settlement_legs d' = settlement_legs d"
    "pricing_quotes d' = pricing_quotes d" "line_items d' = line_items d"
    "decision_ledger d' = decision_ledger d"
  using assms
  by (auto simp: insert_settlement_def settlements_ok_def check_settlement_keys_def
      split: option.splits if_splits)

lemma update_settlement_ok:
  assumes "settlements_ok d" "update_settlement d sid f = Inr d'"
  shows "settlements_ok d'" "settlement_legs d' = settlement_legs d"
    "pricing_quotes d' = pricing_quotes d" "line_items d' = line_items d"
    "decision_ledger d' = decision_ledger d"
proof -
  show "settlements_ok d'"
  proof (cases "find (\<lambda>s. st_id s = sid) (settlements d)")
    case None
    with assms show ?thesis by (simp add: update_settlement_def)
  next
    case (Some old)
    let ?rest = "filter (\<lambda>s. st_id s \<noteq> sid) (settlements d)"
    from assms(2) Some have row: "check_settlement_row (f old) = None"
      and keys: "check_settlement_keys d ?rest (f old) = None"
      and d': "d' = d\<lparr>settlements := map (\<lambda>s. if st_id s = sid then f old else s) (settlements d)\<rparr>"
      by (auto simp: update_settlement_def split: option.splits if_splits)
    from keys have k1: "st_id (f old) \<notin> set (map st_id ?rest)"
      and k2: "st_invoice_id (f old) \<notin> set (map st_invoice_id ?rest)"
      by (auto simp: check_settlement_keys_def split: if_splits)
    from assms(1) have dist: "distinct (map st_id (settlements d))" "distinct (map st_invoice_id (settlements d))"
      and all: "list_all (\<lambda>s. check_settlement_row s = None) (settlements d)"
      by (simp_all add: settlements_ok_def)
    show ?thesis
      unfolding settlements_ok_def d'
      using distinct_map_replace [OF dist(1) dist(1) k1] distinct_map_replace [OF dist(1) dist(2) k2]
        list_all_map_replace [OF all, of "f old" st_id sid] row
      by simp
  qed
  show "settlement_legs d' = settlement_legs d"
    "pricing_quotes d' = pricing_quotes d" "line_items d' = line_items d"
    "decision_ledger d' = decision_ledger d"
    using assms(2) by (auto simp: update_settlement_def split: option.splits if_splits)
qed

lemma insert_settlement_leg_ok:
  assumes "settlement_legs_ok d" "insert_settlement_leg d l = Inr d'"
  shows "settlement_legs_ok d'" "settlements d' = settlements d"
    "pricing_quotes d' = pricing_quotes d" "line_items d' = line_items d"
    "decision_ledger d' = decision_ledger d"
  using assms
  by (auto simp: insert_settlement_leg_def settlement_legs_ok_def check_leg_keys_def
      split: option.splits if_splits)

lemma update_settlement_leg_ok:
  assumes "settlement_legs_ok d" "update_settlement_leg d lid f = Inr d'"
  shows "settlement_legs_ok d'" "settlements d' = settlements d"
    "pricing_quotes d' = pricing_quotes d" "line_items d' = line_items d"
    "decision_ledger d' = decision_ledger d"
proof -
  show "settlement_legs_ok d'"
  proof (cases "find (\<lambda>l. leg_id l = lid) (settlement_legs d)")
    case None
    with assms show ?thesis by (simp add: update_settlement_leg_def)
  next
    case (Some old)
    let ?rest = "filter (\<lambda>l. leg_id l \<noteq> lid) (settlement_legs d)"
    from assms(2) Some have row: "check_leg_row (f old) = None"
      and keys: "check_leg_keys d ?rest (f old) = None"
      and d': "d' = d\<lparr>settlement_legs := map (\<lambda>l. if leg_id l = lid then f old else l) (settlement_legs d)\<rparr>"
      by (auto simp: update_settlement_leg_def split: option.splits if_splits)
    from keys have k1: "leg_id (f old) \<notin> set (map leg_id ?rest)"
      and k2: "(\<lambda>x. (leg_settlement_id x, leg_type x)) (f old)
                 \<notin> set (map (\<lambda>x. (leg_settlement_id x, leg_type x)) ?rest)"
      by (auto simp: check_leg_keys_def split: if_splits)
    from assms(1) have dist: "distinct (map leg_id (settlement_legs d))"
        "distinct (map (\<lambda>x. (leg_settlement_id x, leg_type x)) (settlement_legs d))"
      and all: "list_all (\<lambda>l. check_leg_row l = None) (settlement_legs d)"
      by (simp_all add: settlement_legs_ok_def)
    show ?thesis
      unfolding settlement_legs_ok_def d'
      using distinct_map_replace [OF dist(1) dist(1) k1] distinct_map_replace [OF dist(1) dist(2) k2]
        list_all_map_replace [OF all, of "f old" leg_id lid] row
      by simp
  qed
  show "settlements d' = settlements d"
    "pricing_quotes d' = pricing_quotes d" "line_items d' = line_items d"
    "decision_ledger d' = decision_ledger d"
    using assms(2) by (auto simp: update_settlement_leg_def split: option.splits if_splits)
qed

lemma insert_pricing_quote_ok:
  assumes "pricing_quotes_ok d" "insert_pricing_quote d q = Inr d'"
  shows "pricing_quotes_ok d'" "settlements d' = settlements d"
    "settlement_legs d' = settlement_legs d" "line_items d' = line_items d"
    "decision_ledger d' = decision_ledger d"
  using assms
  by (auto simp: insert_pricing_quote_def pricing_quotes_ok_def check_quote_keys_def
      split: option.splits if_splits)

lemma update_pricing_quote_ok:
  assumes "pricing_quotes_ok d" "update_pricing_quote d qid f = Inr d'"
  shows "pricing_quotes_ok d'" "settlements d' = settlements d"
    "settlement_legs d' = settlement_legs d" "line_items d' = line_items d"
    "decision_ledger d' = decision_ledger d"
proof -
  show "pricing_quotes_ok d'"
  proof (cases "find (\<lambda>q. pq_id q = qid) (pricing_quotes d)")
    case None
    with assms show ?thesis by (simp add: update_pricing_quote_def)
  next
    case (Some old)
    let ?rest = "filter (\<lambda>q. pq_id q \<noteq> qid) (pricing_quotes d)"
    from assms(2) Some have row: "check_quote_row (f old) = None"
      and keys: "check_quote_keys d ?rest (f old) = None"
      and d': "d' = d\<lparr>pricing_quotes := map (\<lambda>q. if pq_id q = qid then f old else q) (pricing_quotes d)\<rparr>"
      by (auto simp: update_pricing_quote_def split: option.splits if_splits)
    from keys have k1: "pq_id (f old) \<notin> set (map pq_id ?rest)"
      by (auto simp: check_quote_keys_def split: if_splits)
    from assms(1) have dist: "distinct (map pq_id (pricing_quotes d))"
      and all: "list_all (\<lambda>q. check_quote_row q = None) (pricing_quotes d)"
      by (simp_all add: pricing_quotes_ok_def)
    show ?thesis
      unfolding pricing_quotes_ok_def d'
      using distinct_map_replace [OF dist dist k1]
        list_all_map_replace [OF all, of "f old" pq_id qid] row
      by simp
  qed
  show "settlements d' = settlements d"
    "settlement_legs d' = settlement_legs d" "line_items d' = line_items d"
    "decision_ledger d' = decision_ledger d"
    using assms(2) by (auto simp: update_pricing_quote_def split: option.splits if_splits)
qed

lemma insert_invoice_frame:
  assumes "insert_invoice d i = Inr d'"
  shows "settlements d' = settlements d" "settlement_legs d' = settlement_legs d"
    "pricing_quotes d' = pricing_quotes d" "line_items d' = line_items d"
    "decision_ledger d' = decision_ledger d"
  using assms by (auto simp: insert_invoice_def split: sum.splits option.splits)

lemma update_invoice_status_frame:
  assumes "update_invoice_status d iid s = Inr d'"
  shows "settlements d' = settlements d" "settlement_legs d' = settlement_legs d"
    "pricing_quotes d' = pricing_quotes d" "line_items d' = line_items d"
    "decision_ledger d' = decision_ledger d"
  using assms by (auto simp: update_invoice_status_def split: if_splits)

lemma add_line_items_frame:
  "add_line_items d lis = Inr d' \<Longrightarrow> d' = d\<lparr>line_items := line_items d @ lis\<rparr>"
proof (induction lis arbitrary: d)
  case Nil
  then show ?case by simp
next
  case (Cons li lis)
  let ?d1 = "d\<lparr>line_items := line_items d @ [li]\<rparr>"
  from Cons.prems have rest: "add_line_items ?d1 lis = Inr d'"
    by (auto split: option.splits)
  from Cons.IH [OF rest] show ?case by simp
qed

lemma add_line_items_ok:
  assumes "line_items_ok d" "add_line_items d lis = Inr d'"
  shows "line_items_ok d'"
  using assms
proof (induction lis arbitrary: d)
  case Nil
  then show ?case by simp
next
  case (Cons li lis)
  let ?d1 = "d\<lparr>line_items := line_items d @ [li]\<rparr>"
  from Cons.prems(2) have row: "check_line_item_row li = None"
    and keys: "check_line_item_keys d (line_items d) li = None"
    and rest: "add_line_items ?d1 lis = Inr d'"
    by (auto split: option.splits)
  from keys Cons.prems(1) row have "line_items_ok ?d1"
    by (auto simp: line_items_ok_def check_line_item_keys_def split: if_splits)
  from Cons.IH [OF this rest] show ?case .
qed

lemma insert_line_items_frame:
  assumes "insert_line_items d lis = Inr d'"
  shows "d' = d\<lparr>line_items := line_items d @ lis\<rparr>" "fire_validate_line_items d' lis = None"
proof -
  from assms have a: "add_line_items d lis = Inr d'"
    and f: "fire_validate_line_items d' lis = None"
    by (auto simp: insert_line_items_def split: sum.splits option.splits)
  from add_line_items_frame [OF a] f
  show "d' = d\<lparr>line_items := line_items d @ lis\<rparr>" "fire_validate_line_items d' lis = None"
    by simp_all
qed

lemma insert_line_items_ok:
  assumes "line_items_ok d" "insert_line_items d lis = Inr d'"
  shows "line_items_ok d'"
proof -
  from assms(2) have a: "add_line_items d lis = Inr d'"
    by (auto simp: insert_line_items_def split: sum.splits option.splits)
  from add_line_items_ok [OF assms(1) a] show ?thesis .
qed

lemma fire_validate_None:
  "fire_validate_line_items d lis = None \<Longrightarrow> li \<in> set lis \<Longrightarrow> validate_line_items_sum d li = None"
  by (induction lis) (auto split: option.splits)

lemma validate_line_items_sum_None:
  assumes "validate_line_items_sum d li = None"
    and "find (\<lambda>i. inv_id i = li_invoice_id li) (invoices d) = Some i"
  shows "\<bar>line_items_sum d (li_invoice_id li) - inv_amount i\<bar> \<le> 1"
  using assms by (auto simp: validate_line_items_sum_def split: if_splits)

lemma update_line_item_ok:
  assumes "line_items_ok d" "update_line_item d lid f = Inr d'"
  shows "line_items_ok d'" "settlements d' = settlements d"
    "settlement_legs d' = settlement_legs d" "pricing_quotes d' = pricing_quotes d"
    "decision_ledger d' = decision_ledger d"
proof -
  show "line_items_ok d'"
  proof (cases "find (\<lambda>x. li_id x = lid) (line_items d)")
    case None
    with assms show ?thesis by (simp add: update_line_item_def)
  next
    case (Some old)
    let ?rest = "filter (\<lambda>x. li_id x \<noteq> lid) (line_items d)"
    from assms(2) Some have row: "check_line_item_row (f old) = None"
      and keys: "check_line_item_keys d ?rest (f old) = None"
      and d': "d' = d\<lparr>line_items := map (\<lambda>x. if li_id x = lid then f old else x) (line_items d)\<rparr>"
      by (auto simp: update_line_item_def Let_def split: option.splits if_splits)
    from keys have k1: "li_id (f old) \<notin> set (map li_id ?rest)"
      and k2: "(\<lambda>x. (li_invoice_id x, li_line_number x)) (f old)
                 \<notin> set (map (\<lambda>x. (li_invoice_id x, li_line_number x)) ?rest)"
      by (auto simp: check_line_item_keys_def split: if_splits)
    from assms(1) have dist: "distinct (map li_id (line_items d))"
        "distinct (map (\<lambda>x. (li_invoice_id x, li_line_number x)) (line_items d))"
      and all: "list_all (\<lambda>x. check_line_item_row x = None) (line_items d)"
      by (simp_all add: line_items_ok_def)
    show ?thesis
      unfolding line_items_ok_def d'
      using distinct_map_replace [OF dist(1) dist(1) k1] distinct_map_replace [OF dist(1) dist(2) k2]
        list_all_map_replace [OF all, of "f old" li_id lid] row
      by simp
  qed
  show "settlements d' = settlements d"
    "settlement_legs d' = settlement_legs d" "pricing_quotes d' = pricing_quotes d"
    "decision_ledger d' = decision_ledger d"
    using assms(2) by (auto simp: update_line_item_def Let_def split: option.splits if_splits)
qed

lemma rules_events:
  "\<not> rewritten_to_nothing decision_ledger_rules On_Insert"
  "rewritten_to_nothing decision_ledger_rules On_Update"
  "rewritten_to_nothing decision_ledger_rules On_Delete"
  by (simp_all add: rewritten_to_nothing_def decision_ledger_rules_def)

lemma insert_decision_result:
  assumes "insert_decision d r = Inr (n, d')"
  shows "n = 1 \<and> d' = d\<lparr>decision_ledger := decision_ledger d @ [r]\<rparr>"
  using assms by (auto simp: insert_decision_def rules_events split: option.splits if_splits)

lemma update_decision_ledger_noop: "update_decision_ledger d Plain p f = Inr (0, d)"
  by (simp add: update_decision_ledger_def rules_events instead_nothing_def)

lemma delete_decision_ledger_noop: "delete_decision_ledger d Plain p = Inr (0, d)"
  by (simp add: delete_decision_ledger_def rules_events instead_nothing_def)

lemma update_decision_ledger_refused:
  "form \<noteq> Plain \<Longrightarrow> \<exists>e. update_decision_ledger d form p f = Inl (Feature_Not_Supported e)"
  by (cases form) (simp_all add: update_decision_ledger_def rules_events instead_nothing_def)

lemma delete_decision_ledger_refused:
  "form \<noteq> Plain \<Longrightarrow> \<exists>e. delete_decision_ledger d form p = Inl (Feature_Not_Supported e)"
  by (cases form) (simp_all add: delete_decision_ledger_def rules_events instead_nothing_def)

lemma exec_update_decision_ledger: "exec d (Update_Decision_Ledger form p f) = Inr d' \<Longrightarrow> d' = d"
  by (cases form) (simp_all add: update_decision_ledger_def rules_events instead_nothing_def)

lemma exec_delete_decision_ledger: "exec d (Delete_Decision_Ledger form p) = Inr d' \<Longrightarrow> d' = d"
  by (cases form) (simp_all add: delete_decision_ledger_def rules_events instead_nothing_def)

lemmas table_oks = settlements_ok_def settlement_legs_ok_def pricing_quotes_ok_def line_items_ok_def

lemma insert_settlement_frame:
  assumes "insert_settlement d st = Inr d'"
  shows "d' = d\<lparr>settlements := settlements d @ [st]\<rparr>"
  using assms by (auto simp: insert_settlement_def split: option.splits)

lemma update_settlement_frame:
  assumes "update_settlement d sid f = Inr d'"
  shows "decision_ledger d' = decision_ledger d"
  using assms by (auto simp: update_settlement_def split: option.splits if_splits)

lemma insert_settlement_leg_frame:
  assumes "insert_settlement_leg d l = Inr d'"
  shows "d' = d\<lparr>settlement_legs := settlement_legs d @ [l]\<rparr>"
  using assms by (auto simp: insert_settlement_leg_def split: option.splits)

lemma update_settlement_leg_frame:
  assumes "update_settlement_leg d lid f = Inr d'"
  shows "decision_ledger d' = decision_ledger d"
  using assms by (auto simp: update_settlement_leg_def split: option.splits)

lemma insert_pricing_quote_frame:
  assumes "insert_pricing_quote d q = Inr d'"
  shows "d' = d\<lparr>pricing_quotes := pricing_quotes d @ [q]\<rparr>"
  using assms by (auto simp: insert_pricing_quote_def split: option.splits)

lemma update_pricing_quote_frame:
  assumes "update_pricing_quote d qid f = Inr d'"
  shows "decision_ledger d' = decision_ledger d"
  using assms by (auto simp: update_pricing_quote_def split: option.splits)

lemma update_line_item_frame:
  assumes "update_line_item d lid f = Inr d'"
  shows "decision_ledger d' = decision_ledger d"
  using assms by (auto simp: update_line_item_def Let_def split: option.splits)

lemma exec_constraints_ok:
  assumes "constraints_ok d" "exec d s = Inr d'"
  shows "constraints_ok d'"
proof (cases s)
  case (Insert_Invoice i)
  with assms insert_invoice_frame [of d i d'] show ?thesis
    by (simp add: constraints_ok_def table_oks)
next
  case (Update_Invoice_Status iid st)
  with assms update_invoice_status_frame [of d iid st d'] show ?thesis
    by (simp add: constraints_ok_def table_oks)
next
  case (Insert_Line_Items lis)
  with assms have ok: "line_items_ok d" and i: "insert_line_items d lis = Inr d'"
    by (simp_all add: constraints_ok_def)
  from insert_line_items_ok [OF ok i] insert_line_items_frame(1) [OF i] assms(1) show ?thesis
    by (simp add: constraints_ok_def settlements_ok_def settlement_legs_ok_def pricing_quotes_ok_def)
next
  case (Update_Line_Item lid f)
  with assms have ok: "line_items_ok d" and i: "update_line_item d lid f = Inr d'"
    by (simp_all add: constraints_ok_def)
  from update_line_item_ok [OF ok i] assms(1) show ?thesis
    by (simp add: constraints_ok_def settlements_ok_def settlement_legs_ok_def pricing_quotes_ok_def)
next
  case (Insert_Settlement st)
  with assms have ok: "settlements_ok d" and i: "insert_settlement d st = Inr d'"
    by (simp_all add: constraints_ok_def)
  from insert_settlement_ok [OF ok i] assms(1) show ?thesis
    by (simp add: constraints_ok_def line_items_ok_def settlement_legs_ok_def pricing_quotes_ok_def)
next
  case (Update_Settlement sid f)
  with assms have ok: "settlements_ok d" and i: "update_settlement d sid f = Inr d'"
    by (simp_all add: constraints_ok_def)
  from update_settlement_ok [OF ok i] assms(1) show ?thesis
    by (simp add: constraints_ok_def line_items_ok_def settlement_legs_ok_def pricing_quotes_ok_def)
next
  case (Insert_Settlement_Leg l)
  with assms have ok: "settlement_legs_ok d" and i: "insert_settlement_leg d l = Inr d'"
    by (simp_all add: constraints_ok_def)
  from insert_settlement_leg_ok [OF ok i] assms(1) show ?thesis
    by (simp add: constraints_ok_def line_items_ok_def settlements_ok_def pricing_quotes_ok_def)
next
  case (Update_Settlement_Leg lid f)
  with assms have ok: "settlement_legs_ok d" and i: "update_settlement_leg d lid f = Inr d'"
    by (simp_all add: constraints_ok_def)
  from update_settlement_leg_ok [OF ok i] assms(1) show ?thesis
    by (simp add: constraints_ok_def line_items_ok_def settlements_ok_def pricing_quotes_ok_def)
next
  case (Insert_Pricing_Quote q)
  with assms have ok: "pricing_quotes_ok d" and i: "insert_pricing_quote d q = Inr d'"
    by (simp_all add: constraints_ok_def)
  from insert_pricing_quote_ok [OF ok i] assms(1) show ?thesis
    by (simp add: constraints_ok_def line_items_ok_def settlements_ok_def settlement_legs_ok_def)
next
  case (Update_Pricing_Quote qid f)
  with assms have ok: "pricing_quotes_ok d" and i: "update_pricing_quote d qid f = Inr d'"
    by (simp_all add: constraints_ok_def)
  from update_pricing_quote_ok [OF ok i] assms(1) show ?thesis
    by (simp add: constraints_ok_def line_items_ok_def settlements_ok_def settlement_legs_ok_def)
next
  case (Insert_Decision r)
  with assms(2) obtain n where "insert_decision d r = Inr (n, d')"
    by (cases "insert_decision d r") auto
  from insert_decision_result [OF this] assms(1) show ?thesis
    by (simp add: constraints_ok_def line_items_ok_def settlements_ok_def settlement_legs_ok_def pricing_quotes_ok_def)
next
  case (Update_Decision_Ledger form p f)
  with assms exec_update_decision_ledger [of d form p f d'] show ?thesis by simp
next
  case (Delete_Decision_Ledger form p)
  with assms exec_delete_decision_ledger [of d form p d'] show ?thesis by simp
qed

lemma run_constraints_ok: "constraints_ok d \<Longrightarrow> constraints_ok (run d ss)"
proof (induction ss arbitrary: d)
  case Nil
  then show ?case by simp
next
  case (Cons s ss)
  show ?case
  proof (cases "exec d s")
    case (Inl e)
    with Cons show ?thesis by simp
  next
    case (Inr d')
    with Cons.prems have "constraints_ok d'" by (rule_tac exec_constraints_ok)
    with Cons.IH Inr show ?thesis by simp
  qed
qed

lemma empty_constraints_ok: "constraints_ok (empty_db\<lparr>accounts := acs\<rparr>)"
  by (simp add: constraints_ok_def empty_db_def line_items_ok_def settlements_ok_def
      settlement_legs_ok_def pricing_quotes_ok_def)

lemma exec_decision_ledger:
  assumes "exec d s = Inr d'"
  shows "\<exists>new. decision_ledger d' = decision_ledger d @ new"
proof (cases s)
  case (Insert_Invoice i)
  with assms insert_invoice_frame(5) [of d i d'] show ?thesis by simp
next
  case (Update_Invoice_Status iid st)
  with assms update_invoice_status_frame(5) [of d iid st d'] show ?thesis by simp
next
  case (Insert_Line_Items lis)
  with assms insert_line_items_frame(1) [of d lis d'] show ?thesis by simp
next
  case (Update_Line_Item lid f)
  with assms update_line_item_frame [of d lid f d'] show ?thesis by simp
next
  case (Insert_Settlement st)
  with assms insert_settlement_frame [of d st d'] show ?thesis by simp
next
  case (Update_Settlement sid f)
  with assms update_settlement_frame [of d sid f d'] show ?thesis by simp
next
  case (Insert_Settlement_Leg l)
  with assms insert_settlement_leg_frame [of d l d'] show ?thesis by simp
next
  case (Update_Settlement_Leg lid f)
  with assms update_settlement_leg_frame [of d lid f d'] show ?thesis by simp
next
  case (Insert_Pricing_Quote q)
  with assms insert_pricing_quote_frame [of d q d'] show ?thesis by simp
next
  case (Update_Pricing_Quote qid f)
  with assms update_pricing_quote_frame [of d qid f d'] show ?thesis by simp
next
  case (Insert_Decision r)
  with assms(1) obtain n where "insert_decision d r = Inr (n, d')"
    by (cases "insert_decision d r") auto
  from insert_decision_result [OF this] show ?thesis by simp
next
  case (Update_Decision_Ledger form p f)
  with assms exec_update_decision_ledger [of d form p f d'] show ?thesis by simp
next
  case (Delete_Decision_Ledger form p)
  with assms exec_delete_decision_ledger [of d form p d'] show ?thesis by simp
qed

lemma run_decision_ledger: "\<exists>new. decision_ledger (run d ss) = decision_ledger d @ new"
proof (induction ss arbitrary: d)
  case Nil
  then show ?case by simp
next
  case (Cons s ss)
  show ?case
  proof (cases "exec d s")
    case (Inl e)
    with Cons show ?thesis by simp
  next
    case (Inr d')
    from exec_decision_ledger [OF Inr] obtain n1 where n1: "decision_ledger d' = decision_ledger d @ n1" ..
    from Cons.IH [of d'] obtain n2 where "decision_ledger (run d' ss) = decision_ledger d' @ n2" ..
    with n1 Inr show ?thesis by simp
  qed
qed

lemma reachable_constraints_ok: "constraints_ok (reachable_db acs ss)"
  unfolding reachable_db_def by (rule run_constraints_ok) (rule empty_constraints_ok)

lemma distinct_filter_le1:
  "distinct (map k xs) \<Longrightarrow> length (filter (\<lambda>x. k x = a) xs) \<le> 1"
proof (induction xs)
  case Nil
  then show ?case by simp
next
  case (Cons x xs)
  show ?case
  proof (cases "k x = a")
    case True
    with Cons.prems have "\<forall>y\<in>set xs. k y \<noteq> a" by (fastforce simp: image_iff)
    then have "filter (\<lambda>x. k x = a) xs = []" by (simp add: filter_empty_conv)
    with True show ?thesis by simp
  next
    case False
    with Cons show ?thesis by simp
  qed
qed

lemma check_leg_row_type:
  "check_leg_row l = None \<Longrightarrow> leg_type l \<in> {''CREDIT'', ''DEBIT'', ''ADVANCE''} \<and> 0 < leg_amount l"
  by (auto simp: check_leg_row_def settlement_legs_leg_type_check_def settlement_legs_amount_check_def
      split: if_splits)

lemma legs_le3:
  assumes d: "distinct (map (\<lambda>x. (leg_settlement_id x, leg_type x)) L)"
    and c: "list_all (\<lambda>l. check_leg_row l = None) L"
  shows "length (filter (\<lambda>l. leg_settlement_id l = sid) L) \<le> 3"
proof -
  let ?F = "filter (\<lambda>l. leg_settlement_id l = sid) L"
  from d have dL: "distinct L" and inj: "inj_on (\<lambda>x. (leg_settlement_id x, leg_type x)) (set L)"
    by (simp_all add: distinct_map)
  have "inj_on leg_type (set ?F)"
  proof (rule inj_onI)
    fix x y assume "x \<in> set ?F" "y \<in> set ?F" "leg_type x = leg_type y"
    then have "x \<in> set L" "y \<in> set L"
      "(leg_settlement_id x, leg_type x) = (leg_settlement_id y, leg_type y)" by auto
    with inj show "x = y" by (auto dest: inj_onD)
  qed
  with dL have "distinct (map leg_type ?F)" by (simp add: distinct_map)
  then have "length ?F = card (set (map leg_type ?F))"
    by (metis distinct_card length_map)
  also have "\<dots> \<le> card {''CREDIT'', ''DEBIT'', ''ADVANCE''}"
  proof (rule card_mono)
    show "finite {''CREDIT'', ''DEBIT'', ''ADVANCE''}" by simp
    from c show "set (map leg_type ?F) \<subseteq> {''CREDIT'', ''DEBIT'', ''ADVANCE''}"
      using check_leg_row_type by (auto simp: list_all_iff)
  qed
  also have "\<dots> \<le> 3" by (simp add: card_insert_if)
  finally show ?thesis .
qed

lemma insert_settlement_dup:
  assumes "st_invoice_id st \<in> set (map st_invoice_id (settlements d))"
  shows "\<exists>e. insert_settlement d st = Inl e"
  using assms
  by (auto simp: insert_settlement_def check_settlement_keys_def split: option.splits)

lemma insert_settlement_leg_dup:
  assumes "(leg_settlement_id l, leg_type l)
             \<in> set (map (\<lambda>x. (leg_settlement_id x, leg_type x)) (settlement_legs d))"
  shows "\<exists>e. insert_settlement_leg d l = Inl e"
  using assms
  by (auto simp: insert_settlement_leg_def check_leg_keys_def split: option.splits)

lemma run_append: "run d (xs @ ys) = run (run d xs) ys"
  by (induction xs arbitrary: d) (auto split: sum.splits)

lemma reachable_three_legs:
  "reachable_db seed_accounts three_legs_stmts = three_legs_db 5024658 5000000"
proof -
  have split: "three_legs_stmts =
      [Insert_Invoice (sample_values 50000), Update_Invoice_Status ''INV-1'' ''ACCEPTED'']
      @ [Insert_Settlement (sample_settlement None)]
      @ [Insert_Settlement_Leg (sample_leg 1 ''CREDIT'' ''SUP-001'' 5000000),
         Insert_Settlement_Leg (sample_leg 2 ''DEBIT'' ''BUY-001'' 5024658),
         Insert_Settlement_Leg (sample_leg 3 ''ADVANCE'' ''CAP-001'' 5000000)]"
    by (simp add: three_legs_stmts_def)
  have seed: "empty_db\<lparr>accounts := seed_accounts\<rparr> = seed_db"
    by (simp add: seed_db_def seed_accounts_def)
  show ?thesis
    unfolding reachable_db_def split run_append seed
    by (simp only: accepted_db_def [symmetric] in_progress_db_def [symmetric] three_legs_db_def [symmetric])
qed

lemma three_legs_sample_fields:
  "settlements (three_legs_db 5024658 5000000) = [sample_settlement None]"
  "settlement_legs (three_legs_db 5024658 5000000) =
     [sample_leg 1 ''CREDIT'' ''SUP-001'' 5000000, sample_leg 2 ''DEBIT'' ''BUY-001'' 5024658,
      sample_leg 3 ''ADVANCE'' ''CAP-001'' 5000000]"
  by (simp_all add: three_legs_db_eq in_progress_fields)

lemma settled_db_eq:
  "settled_db = seed_db\<lparr>invoices := [(sample_invoice 5000000)\<lparr>inv_status := ''SETTLED''\<rparr>]\<rparr>"
  by (simp add: settled_db_def accepted_db_eq update_invoice_status_def invoices_status_check_def
      seed_db_def empty_db_def sample_invoice_def)

lemma int_div_less_iff:
  fixes a k c :: int
  assumes "0 < k"
  shows "a div k < c \<longleftrightarrow> a < c * k"
proof
  assume lt: "a div k < c"
  have "a = k * (a div k) + a mod k" by simp
  moreover have "a mod k < k" using assms by simp
  moreover have "k * (a div k) \<le> k * (c - 1)"
    using lt assms by (simp add: mult_left_mono)
  ultimately have "a < k * (c - 1) + k" by linarith
  then show "a < c * k" by (simp add: algebra_simps)
next
  assume lt: "a < c * k"
  show "a div k < c"
  proof (rule ccontr)
    assume "\<not> a div k < c"
    then have "c \<le> a div k" by simp
    then have "c * k \<le> (a div k) * k" using assms by (simp add: mult_right_mono)
    also have "\<dots> \<le> a" using assms
      by (metis mult.commute pos_mod_sign add_le_cancel_left mult_div_mod_eq add.right_neutral)
    finally show False using lt by simp
  qed
qed

lemma round_div_1000_less: "round_div n 1000 < 5000 \<longleftrightarrow> n < 4999500"
proof (cases "n \<ge> 0")
  case True
  then show ?thesis by (simp add: round_div_def int_div_less_iff)
next
  case False
  then have "0 \<le> (2 * (- n) + 1000) div 2000"
    by (simp add: pos_imp_zdiv_nonneg_iff)
  with False show ?thesis by (simp add: round_div_def)
qed

lemma settlement_duration_check_iff:
  "settlement_duration_check st \<longleftrightarrow>
     (case st_completed_at st of None \<Rightarrow> True | Some c \<Rightarrow> c - st_started_at st < 4999500)"
  by (simp add: settlement_duration_check_def duration_seconds_def round_div_1000_less split: option.splits)

lemma check_settlement_row_duration:
  assumes "check_settlement_row st = None" "st_completed_at st = Some c"
  shows "c - st_started_at st < 4999500"
proof -
  from assms(1) have "settlement_duration_check st"
    by (auto simp: check_settlement_row_def split: if_splits)
  with assms(2) show ?thesis by (simp add: settlement_duration_check_iff)
qed

lemma round_div_1000_small:
  assumes "0 \<le> n" "n \<le> 10000000"
  shows "\<bar>round_div n 1000\<bar> < 10 ^ 10"
proof -
  from assms have "0 \<le> (2 * n + 1000) div 2000" by (simp add: pos_imp_zdiv_nonneg_iff)
  moreover from assms have "(2 * n + 1000) div 2000 < 10 ^ 10" by (simp add: int_div_less_iff)
  ultimately show ?thesis using assms by (simp add: round_div_def)
qed

lemma check_sample_settlement_late:
  assumes "5000000 \<le> c" "c \<le> 10000000"
  shows "check_settlement_row (sample_settlement (Some c)) = Some (Check_Violation ''settlement_duration_check'')"
proof -
  have p: "capital_profit (sample_settlement (Some c)) = 24658"
    by (simp add: capital_profit_def sample_settlement_def)
  have du: "duration_seconds (sample_settlement (Some c)) = Some (round_div c 1000)"
    by (simp add: duration_seconds_def sample_settlement_def)
  have small: "\<not> \<bar>round_div c 1000\<bar> \<ge> 10 ^ 10" using round_div_1000_small [of c] assms by simp
  have st: "settlements_status_check (st_status (sample_settlement (Some c)))"
    by (simp add: settlements_status_check_def sample_settlement_def)
  have "\<not> settlement_duration_check (sample_settlement (Some c))"
    using assms by (simp add: settlement_duration_check_iff sample_settlement_def)
  with p du small st show ?thesis by (simp add: check_settlement_row_def)
qed

lemma complete_at_sample: "complete_at c (sample_settlement None) = sample_settlement (Some c)"
  by (simp add: complete_at_def sample_settlement_def)

lemma find_in_progress:
  "find (\<lambda>s. st_id s = ''SET-1'') (settlements in_progress_db) = Some (sample_settlement None)"
  by (simp add: in_progress_fields)

lemma update_late:
  assumes "5000000 \<le> c" "c \<le> 10000000"
  shows "update_settlement in_progress_db ''SET-1'' (complete_at c)
           = Inl (Check_Violation ''settlement_duration_check'')"
  using check_sample_settlement_late [OF assms]
  by (simp add: update_settlement_def find_in_progress complete_at_sample)

lemma insert_late:
  assumes "5000000 \<le> c" "c \<le> 10000000"
  shows "insert_settlement accepted_db (sample_settlement (Some c))
           = Inl (Check_Violation ''settlement_duration_check'')"
  using check_sample_settlement_late [OF assms] by (simp add: insert_settlement_def)

lemma check_sample_settlement_4200:
  "check_settlement_row (sample_settlement (Some 4200000)) = None"
  by (simp add: check_settlement_row_def sample_settlement_def capital_profit_def duration_seconds_def
       settlements_status_check_def settlement_duration_check_def round_div_def)

lemma update_in_time:
  "update_settlement in_progress_db ''SET-1'' (complete_at 4200000)
     = Inr (accepted_db\<lparr>settlements := [sample_settlement (Some 4200000)]\<rparr>)"
proof -
  have k: "check_settlement_keys in_progress_db [] (sample_settlement (Some 4200000)) = None"
    by (simp add: check_settlement_keys_def in_progress_db_eq accepted_db_eq seed_db_def empty_db_def
      sample_settlement_def sample_invoice_def)
  have l: "settlement_legs in_progress_db = []" by (simp add: in_progress_fields)
  show ?thesis
    by (simp add: update_settlement_def find_in_progress complete_at_sample
        check_sample_settlement_4200 in_progress_fields k)
       (simp add: in_progress_db_eq)
qed

subsection \<open>Settlements and legs\<close>

text \<open>
  Claim C2, as the schema has it. In every reachable database an invoice is
  referenced by at most one settlement row, a settlement has at most one leg of each
  type and at most three legs, and every leg has one of the types CREDIT, DEBIT and
  ADVANCE. Inserting a settlement for an invoice that already has one, or a leg whose
  settlement already has a leg of that type, fails. Nothing ties the status of an
  invoice to the presence of a settlement or of its legs.
\<close>

theorem settlement_and_legs_at_most_once:
  "length (filter (\<lambda>s. st_invoice_id s = iid) (settlements (reachable_db acs ss))) \<le> 1
   \<and> length (filter (\<lambda>l. (leg_settlement_id l, leg_type l) = (sid, t))
              (settlement_legs (reachable_db acs ss))) \<le> 1
   \<and> length (filter (\<lambda>l. leg_settlement_id l = sid) (settlement_legs (reachable_db acs ss))) \<le> 3
   \<and> (\<forall>l\<in>set (settlement_legs (reachable_db acs ss)).
         leg_type l \<in> {''CREDIT'', ''DEBIT'', ''ADVANCE''})
   \<and> (st_invoice_id st \<in> set (map st_invoice_id (settlements (reachable_db acs ss))) \<longrightarrow>
         (\<exists>e. insert_settlement (reachable_db acs ss) st = Inl e))
   \<and> ((leg_settlement_id l, leg_type l)
          \<in> set (map (\<lambda>x. (leg_settlement_id x, leg_type x)) (settlement_legs (reachable_db acs ss))) \<longrightarrow>
         (\<exists>e. insert_settlement_leg (reachable_db acs ss) l = Inl e))"
proof -
  let ?d = "reachable_db acs ss"
  have ok: "settlements_ok ?d" "settlement_legs_ok ?d"
    using reachable_constraints_ok [of acs ss] by (simp_all add: constraints_ok_def)
  have a: "length (filter (\<lambda>s. st_invoice_id s = iid) (settlements ?d)) \<le> 1"
    using ok(1) distinct_filter_le1 [of st_invoice_id "settlements ?d" iid]
    by (simp add: settlements_ok_def)
  have b: "length (filter (\<lambda>l. (leg_settlement_id l, leg_type l) = (sid, t)) (settlement_legs ?d)) \<le> 1"
    using ok(2) distinct_filter_le1 [of "\<lambda>x. (leg_settlement_id x, leg_type x)" "settlement_legs ?d" "(sid, t)"]
    by (simp add: settlement_legs_ok_def)
  have c: "length (filter (\<lambda>l. leg_settlement_id l = sid) (settlement_legs ?d)) \<le> 3"
    using ok(2) by (simp add: settlement_legs_ok_def legs_le3)
  have e: "\<forall>l\<in>set (settlement_legs ?d). leg_type l \<in> {''CREDIT'', ''DEBIT'', ''ADVANCE''}"
    using ok(2) check_leg_row_type by (auto simp: settlement_legs_ok_def list_all_iff)
  from a b c e insert_settlement_dup [of st ?d] insert_settlement_leg_dup [of l ?d]
  show ?thesis by blast
qed

theorem settlement_and_legs_at_most_once_witness:
  "st_invoice_id (sample_settlement None)
     \<in> set (map st_invoice_id (settlements (reachable_db seed_accounts three_legs_stmts)))
   \<and> (\<exists>e. insert_settlement (reachable_db seed_accounts three_legs_stmts) (sample_settlement None) = Inl e)
   \<and> (leg_settlement_id (sample_leg 4 ''CREDIT'' ''SUP-001'' 100), leg_type (sample_leg 4 ''CREDIT'' ''SUP-001'' 100))
        \<in> set (map (\<lambda>x. (leg_settlement_id x, leg_type x))
                 (settlement_legs (reachable_db seed_accounts three_legs_stmts)))
   \<and> (\<exists>e. insert_settlement_leg (reachable_db seed_accounts three_legs_stmts)
              (sample_leg 4 ''CREDIT'' ''SUP-001'' 100) = Inl e)
   \<and> length (filter (\<lambda>l. leg_settlement_id l = ''SET-1'')
               (settlement_legs (reachable_db seed_accounts three_legs_stmts))) = 3"
proof -
  have m1: "st_invoice_id (sample_settlement None)
     \<in> set (map st_invoice_id (settlements (reachable_db seed_accounts three_legs_stmts)))"
    by (simp add: reachable_three_legs three_legs_sample_fields)
  have m2: "(leg_settlement_id (sample_leg 4 ''CREDIT'' ''SUP-001'' 100), leg_type (sample_leg 4 ''CREDIT'' ''SUP-001'' 100))
        \<in> set (map (\<lambda>x. (leg_settlement_id x, leg_type x))
                 (settlement_legs (reachable_db seed_accounts three_legs_stmts)))"
    by (simp add: reachable_three_legs three_legs_sample_fields)
  have m3: "length (filter (\<lambda>l. leg_settlement_id l = ''SET-1'')
               (settlement_legs (reachable_db seed_accounts three_legs_stmts))) = 3"
    by (simp add: reachable_three_legs three_legs_sample_fields)
  from m1 m2 m3
    settlement_and_legs_at_most_once [of "''INV-1''" seed_accounts three_legs_stmts "''SET-1''" "''CREDIT''"
      "sample_settlement None" "sample_leg 4 ''CREDIT'' ''SUP-001'' 100"]
  show ?thesis by blast
qed

text \<open>An UPDATE sets the accepted invoice INV-1 to SETTLED while the settlements and
  the legs are empty.\<close>

theorem settled_invoice_without_settlement_counterexample:
  "map inv_status (invoices settled_db) = [''SETTLED'']
   \<and> settlements settled_db = [] \<and> settlement_legs settled_db = []"
  by (simp add: settled_db_eq seed_db_def empty_db_def)

lemma reachable_completed:
  "reachable_db seed_accounts completed_stmts
     = accepted_db\<lparr>settlements := [sample_settlement (Some 4200000)]\<rparr>"
proof -
  have split: "completed_stmts =
      [Insert_Invoice (sample_values 50000), Update_Invoice_Status ''INV-1'' ''ACCEPTED'']
      @ [Insert_Settlement (sample_settlement None)]
      @ [Update_Settlement ''SET-1'' (complete_at 4200000)]"
    by (simp add: completed_stmts_def)
  have seed: "empty_db\<lparr>accounts := seed_accounts\<rparr> = seed_db"
    by (simp add: seed_db_def seed_accounts_def)
  have "reachable_db seed_accounts completed_stmts
          = run in_progress_db [Update_Settlement ''SET-1'' (complete_at 4200000)]"
    unfolding reachable_db_def split run_append seed
    by (simp only: accepted_db_def [symmetric] in_progress_db_def [symmetric])
  then show ?thesis by (simp add: update_in_time)
qed

subsection \<open>Settlement duration\<close>

text \<open>
  Claim C3, as the schema has it. A settlement row passes the duration check exactly
  when it has no completion time or its completion time is less than 4.9995 seconds
  after its start (the duration is rounded to milliseconds before it is compared with
  5.0). So every completed settlement of a reachable database took less than 5
  seconds, and recording a completion between 5 and 10 seconds after the start, by
  UPDATE or by INSERT, fails with the check violation; a completion after 4.2 seconds
  is recorded.
\<close>

theorem settlement_duration_below_5s:
  "(settlement_duration_check st \<longleftrightarrow>
      (case st_completed_at st of None \<Rightarrow> True | Some c \<Rightarrow> c - st_started_at st < 4999500))
   \<and> (\<forall>s\<in>set (settlements (reachable_db acs ss)).
         \<forall>c. st_completed_at s = Some c \<longrightarrow> c - st_started_at s < 5000000)
   \<and> (5000000 \<le> c \<and> c \<le> 10000000 \<longrightarrow>
         update_settlement in_progress_db ''SET-1'' (complete_at c)
           = Inl (Check_Violation ''settlement_duration_check'')
         \<and> insert_settlement accepted_db (sample_settlement (Some c))
           = Inl (Check_Violation ''settlement_duration_check''))
   \<and> update_settlement in_progress_db ''SET-1'' (complete_at 4200000)
        = Inr (accepted_db\<lparr>settlements := [sample_settlement (Some 4200000)]\<rparr>)"
proof -
  have "settlements_ok (reachable_db acs ss)"
    using reachable_constraints_ok [of acs ss] by (simp add: constraints_ok_def)
  then have rows: "\<forall>s\<in>set (settlements (reachable_db acs ss)). check_settlement_row s = None"
    by (simp add: settlements_ok_def list_all_iff)
  have r: "\<forall>s\<in>set (settlements (reachable_db acs ss)).
         \<forall>c. st_completed_at s = Some c \<longrightarrow> c - st_started_at s < 5000000"
  proof (intro ballI allI impI)
    fix s c
    assume "s \<in> set (settlements (reachable_db acs ss))" and c: "st_completed_at s = Some c"
    with rows have "check_settlement_row s = None" by simp
    from check_settlement_row_duration [OF this c] show "c - st_started_at s < 5000000" by simp
  qed
  from r settlement_duration_check_iff [of st] update_late [of c] insert_late [of c] update_in_time
  show ?thesis by blast
qed

theorem settlement_duration_below_5s_witness:
  "sample_settlement (Some 4200000) \<in> set (settlements (reachable_db seed_accounts completed_stmts))
   \<and> st_completed_at (sample_settlement (Some 4200000)) = Some 4200000
   \<and> 4200000 - st_started_at (sample_settlement (Some 4200000)) < 5000000
   \<and> 5000000 \<le> (6000000::int) \<and> (6000000::int) \<le> 10000000
   \<and> insert_settlement accepted_db (sample_settlement (Some 6000000))
        = Inl (Check_Violation ''settlement_duration_check'')"
proof -
  have m: "sample_settlement (Some 4200000) \<in> set (settlements (reachable_db seed_accounts completed_stmts))"
    by (simp add: reachable_completed)
  have c: "st_completed_at (sample_settlement (Some 4200000)) = Some 4200000"
    by (simp add: sample_settlement_def)
  from m c settlement_duration_below_5s [of "sample_settlement None" seed_accounts completed_stmts 6000000]
  show ?thesis by fastforce
qed

text \<open>Recording the completion of SET-1 six seconds after its start is refused.\<close>

theorem settlement_completed_after_6s_counterexample:
  "update_settlement in_progress_db ''SET-1'' (complete_at 6000000)
     = Inl (Check_Violation ''settlement_duration_check'')"
  by (rule update_late) simp_all

subsection \<open>Pricing quotes\<close>

lemma check_quote_row_iff:
  "check_quote_row q = None \<longleftrightarrow>
     0 < pq_expires_at q - pq_created_at q \<and> pq_expires_at q - pq_created_at q \<le> 300000000"
  by (auto simp: check_quote_row_def quote_validity_def quote_expiry_window_def)

lemma inv_103_iff: "inv_103_pre_check now (Some q) \<longleftrightarrow> now - pq_created_at q < 300000000"
  by (auto simp: inv_103_pre_check_def inv_109_pre_check_def)

lemma inv_103_pre_check_ignores_used:
  "inv_103_pre_check now (Some (q\<lparr>pq_used := u, pq_used_at := t\<rparr>)) = inv_103_pre_check now (Some q)"
  by (simp add: inv_103_pre_check_def inv_109_pre_check_def)

lemma insert_sample_quote:
  assumes "0 < ttl" "ttl \<le> 300000000"
  shows "insert_pricing_quote accepted_db (sample_quote t ttl)
     = Inr (accepted_db\<lparr>pricing_quotes := [sample_quote t ttl]\<rparr>)"
proof -
  have r: "check_quote_row (sample_quote t ttl) = None"
    using assms by (simp add: check_quote_row_iff sample_quote_def)
  have k: "check_quote_keys accepted_db [] (sample_quote t ttl) = None"
    by (simp add: check_quote_keys_def accepted_db_eq seed_db_def empty_db_def sample_quote_def sample_invoice_def)
  have e: "pricing_quotes accepted_db = []"
    by (simp add: accepted_db_eq seed_db_def empty_db_def)
  show ?thesis by (simp add: insert_pricing_quote_def r k e)
qed

lemma reachable_quote:
  "reachable_db seed_accounts quote_stmts
     = accepted_db\<lparr>pricing_quotes := [sample_quote 0 300000000]\<rparr>"
proof -
  have split: "quote_stmts =
      [Insert_Invoice (sample_values 50000), Update_Invoice_Status ''INV-1'' ''ACCEPTED'']
      @ [Insert_Pricing_Quote (sample_quote 0 300000000)]"
    by (simp add: quote_stmts_def)
  have seed: "empty_db\<lparr>accounts := seed_accounts\<rparr> = seed_db"
    by (simp add: seed_db_def seed_accounts_def)
  have "reachable_db seed_accounts quote_stmts
          = run accepted_db [Insert_Pricing_Quote (sample_quote 0 300000000)]"
    unfolding reachable_db_def split run_append seed
    by (simp only: accepted_db_def [symmetric])
  then show ?thesis by (simp add: insert_sample_quote)
qed

text \<open>
  Claim C8, as the schema and the catalogue have it. A quote row passes its checks
  exactly when its expiry lies after its creation and at most five minutes after it,
  so every stored quote of a reachable database satisfies \<open>0 < expires_at - created_at
  \<le> 5 min\<close>. The pre-check of INV-103 passes a quote exactly when it exists and is less
  than five minutes old: a quote aged 299 seconds passes and one aged 301 seconds
  fails.
\<close>

theorem quote_window_and_freshness:
  "(check_quote_row q = None \<longleftrightarrow>
      0 < pq_expires_at q - pq_created_at q \<and> pq_expires_at q - pq_created_at q \<le> 300000000)
   \<and> (\<forall>x\<in>set (pricing_quotes (reachable_db acs ss)).
         0 < pq_expires_at x - pq_created_at x \<and> pq_expires_at x - pq_created_at x \<le> 300000000)
   \<and> (inv_103_pre_check now (Some q) \<longleftrightarrow> now - pq_created_at q < 300000000)
   \<and> \<not> inv_103_pre_check now None
   \<and> inv_103_pre_check 299000000 (Some (sample_quote 0 300000000))
   \<and> \<not> inv_103_pre_check 301000000 (Some (sample_quote 0 300000000))"
proof -
  have "pricing_quotes_ok (reachable_db acs ss)"
    using reachable_constraints_ok [of acs ss] by (simp add: constraints_ok_def)
  then have r: "\<forall>x\<in>set (pricing_quotes (reachable_db acs ss)).
         0 < pq_expires_at x - pq_created_at x \<and> pq_expires_at x - pq_created_at x \<le> 300000000"
    by (simp add: pricing_quotes_ok_def list_all_iff check_quote_row_iff)
  have n: "\<not> inv_103_pre_check now None" by (simp add: inv_103_pre_check_def)
  have e: "inv_103_pre_check 299000000 (Some (sample_quote 0 300000000))"
    "\<not> inv_103_pre_check 301000000 (Some (sample_quote 0 300000000))"
    by (simp_all add: inv_103_iff sample_quote_def)
  from r n e check_quote_row_iff [of q] inv_103_iff [of now q] show ?thesis by blast
qed

theorem quote_window_and_freshness_witness:
  "sample_quote 0 300000000 \<in> set (pricing_quotes (reachable_db seed_accounts quote_stmts))
   \<and> 0 < pq_expires_at (sample_quote 0 300000000) - pq_created_at (sample_quote 0 300000000)
   \<and> pq_expires_at (sample_quote 0 300000000) - pq_created_at (sample_quote 0 300000000) \<le> 300000000
   \<and> inv_103_pre_check 299000000 (Some (sample_quote 0 300000000))"
proof -
  have m: "sample_quote 0 300000000 \<in> set (pricing_quotes (reachable_db seed_accounts quote_stmts))"
    by (simp add: reachable_quote)
  from m quote_window_and_freshness [of "sample_quote 0 300000000" seed_accounts quote_stmts 0]
  show ?thesis by blast
qed

text \<open>A quote that expires one minute after its creation is stored, and a quote
  marked as used passes the pre-check ten seconds after its creation.\<close>

theorem short_lived_quote_counterexample:
  "insert_pricing_quote accepted_db (sample_quote 0 60000000)
     = Inr (accepted_db\<lparr>pricing_quotes := [sample_quote 0 60000000]\<rparr>)
   \<and> pq_expires_at (sample_quote 0 60000000) \<noteq> pq_created_at (sample_quote 0 60000000) + 300000000
   \<and> inv_103_pre_check 10000000
        (Some ((sample_quote 0 300000000)\<lparr>pq_used := True, pq_used_at := Some 5000000\<rparr>))"
  by (simp add: insert_sample_quote inv_103_pre_check_ignores_used inv_103_iff)
     (simp add: sample_quote_def)

subsection \<open>The decision ledger\<close>

lemma run_ledger_writes: "list_all is_ledger_update_or_delete ss \<Longrightarrow> run d ss = d"
proof (induction ss)
  case Nil
  then show ?case by simp
next
  case (Cons s ss)
  then have s: "is_ledger_update_or_delete s" and rest: "run d ss = d" by simp_all
  have "\<And>d'. exec d s = Inr d' \<Longrightarrow> d' = d"
    using s exec_update_decision_ledger exec_delete_decision_ledger by (cases s) auto
  with rest show ?case by (cases "exec d s") auto
qed

lemma run_ledger_nth:
  assumes "n < length (decision_ledger d)"
  shows "decision_ledger (run d ss) ! n = decision_ledger d ! n"
proof -
  from run_decision_ledger [of d ss] obtain new where
    "decision_ledger (run d ss) = decision_ledger d @ new" ..
  with assms show ?thesis by (simp add: nth_append)
qed

lemma ledger_db_eq: "ledger_db = seed_db\<lparr>decision_ledger := [sample_decision 1]\<rparr>"
  by (simp add: ledger_db_def insert_decision_def rules_events check_decision_row_def
      seed_db_def empty_db_def)
     (simp add: sample_decision_def)

text \<open>
  Claim C9, as the rules have it. An UPDATE or a DELETE on the decision ledger that
  stands on its own and has no RETURNING clause, whatever its WHERE and SET clauses,
  succeeds, affects zero rows and returns the database it was given. One that has a
  RETURNING clause, or stands inside a WITH clause, is refused with an error. Either
  way the database is unchanged: a run of such statements leaves it as it was, and
  over any run of statements the ledger only grows at its end, so a record that was
  inserted stays at its place with its fields.
\<close>

theorem decision_ledger_immutable:
  "update_decision_ledger d Plain p f = Inr (0, d)
   \<and> delete_decision_ledger d Plain p = Inr (0, d)
   \<and> (form \<noteq> Plain \<longrightarrow>
        (\<exists>e. update_decision_ledger d form p f = Inl (Feature_Not_Supported e)) \<and>
        (\<exists>e. delete_decision_ledger d form p = Inl (Feature_Not_Supported e)))
   \<and> exec d (Update_Decision_Ledger Plain p f) = Inr d
   \<and> exec d (Delete_Decision_Ledger Plain p) = Inr d
   \<and> (\<forall>d'. exec d (Update_Decision_Ledger form p f) = Inr d' \<longrightarrow> d' = d)
   \<and> (\<forall>d'. exec d (Delete_Decision_Ledger form p) = Inr d' \<longrightarrow> d' = d)
   \<and> (list_all is_ledger_update_or_delete ss \<longrightarrow> run d ss = d)
   \<and> (\<exists>new. decision_ledger (run d ss) = decision_ledger d @ new)
   \<and> (n < length (decision_ledger d) \<longrightarrow> decision_ledger (run d ss) ! n = decision_ledger d ! n)"
proof -
  have r: "form \<noteq> Plain \<longrightarrow>
        (\<exists>e. update_decision_ledger d form p f = Inl (Feature_Not_Supported e)) \<and>
        (\<exists>e. delete_decision_ledger d form p = Inl (Feature_Not_Supported e))"
    using update_decision_ledger_refused [of form d p f] delete_decision_ledger_refused [of form d p]
    by blast
  have u: "\<forall>d'. exec d (Update_Decision_Ledger form p f) = Inr d' \<longrightarrow> d' = d"
    using exec_update_decision_ledger [of d form p f] by blast
  have e: "\<forall>d'. exec d (Delete_Decision_Ledger form p) = Inr d' \<longrightarrow> d' = d"
    using exec_delete_decision_ledger [of d form p] by blast
  have x: "exec d (Update_Decision_Ledger Plain p f) = Inr d"
    "exec d (Delete_Decision_Ledger Plain p) = Inr d"
    by (simp_all add: update_decision_ledger_noop delete_decision_ledger_noop)
  from r u e x run_ledger_writes [of ss d] run_decision_ledger [of d ss] run_ledger_nth [of n d ss]
    update_decision_ledger_noop [of d p f] delete_decision_ledger_noop [of d p]
  show ?thesis by blast
qed

theorem decision_ledger_immutable_witness:
  "list_all is_ledger_update_or_delete tamper_stmts
   \<and> run ledger_db tamper_stmts = ledger_db
   \<and> Returning \<noteq> Plain
   \<and> (\<exists>e. update_decision_ledger ledger_db Returning (\<lambda>r. True) id = Inl (Feature_Not_Supported e))
   \<and> (0::nat) < length (decision_ledger ledger_db)
   \<and> decision_ledger (run ledger_db tamper_stmts) ! 0 = sample_decision 1"
proof -
  have a: "list_all is_ledger_update_or_delete tamper_stmts"
    by (simp add: tamper_stmts_def)
  have b: "decision_ledger ledger_db = [sample_decision 1]"
    by (simp add: ledger_db_eq)
  from a b decision_ledger_immutable [of ledger_db "\<lambda>r. True" id Returning tamper_stmts 0]
  show ?thesis by simp
qed

text \<open>An UPDATE of the ledger with a RETURNING clause raises an error.\<close>

theorem update_returning_counterexample:
  "update_decision_ledger ledger_db Returning (\<lambda>r. True) (\<lambda>r. r\<lparr>dr_result := False\<rparr>)
     = Inl (Feature_Not_Supported ''cannot perform UPDATE RETURNING on relation decision_ledger'')"
  by (simp add: update_decision_ledger_def rules_events instead_nothing_def)

subsection \<open>Line items\<close>

lemma check_line_item_row_pos:
  assumes "check_line_item_row li = None"
  shows "0 < li_quantity li \<and> 0 < li_unit_price li \<and> 0 < li_amount li"
proof -
  from assms have "0 < li_quantity li" "0 < li_unit_price li"
    by (auto simp: check_line_item_row_def split: if_splits)
  then show ?thesis by (simp add: li_amount_def)
qed

lemma add_line_items_rows:
  assumes "add_line_items d lis = Inr d'" "li \<in> set lis"
  shows "check_line_item_row li = None \<and> li_invoice_id li \<in> set (map inv_id (invoices d))"
  using assms
proof (induction lis arbitrary: d)
  case Nil
  then show ?case by simp
next
  case (Cons x xs)
  let ?d1 = "d\<lparr>line_items := line_items d @ [x]\<rparr>"
  from Cons.prems(1) have row: "check_line_item_row x = None"
    and keys: "check_line_item_keys d (line_items d) x = None"
    and rest: "add_line_items ?d1 xs = Inr d'"
    by (auto split: option.splits)
  from keys have fk: "li_invoice_id x \<in> set (map inv_id (invoices d))"
    by (auto simp: check_line_item_keys_def split: if_splits)
  show ?case
  proof (cases "li = x")
    case True
    with row fk show ?thesis by simp
  next
    case False
    with Cons.prems(2) have "li \<in> set xs" by simp
    from Cons.IH [OF rest this] show ?thesis by simp
  qed
qed

lemma find_of_mem: "a \<in> set (map k xs) \<Longrightarrow> \<exists>x. find (\<lambda>x. k x = a) xs = Some x"
  by (induction xs) auto

lemma insert_line_items_sum:
  assumes "insert_line_items d lis = Inr d'" "li \<in> set lis"
  shows "0 < li_quantity li \<and> 0 < li_unit_price li \<and> 0 < li_amount li \<and>
     (\<exists>i. find (\<lambda>i. inv_id i = li_invoice_id li) (invoices d) = Some i \<and>
          \<bar>line_items_sum d' (li_invoice_id li) - inv_amount i\<bar> \<le> 1)"
proof -
  from assms(1) have a: "add_line_items d lis = Inr d'"
    by (auto simp: insert_line_items_def split: sum.splits option.splits)
  from add_line_items_rows [OF a assms(2)] have row: "check_line_item_row li = None"
    and fk: "li_invoice_id li \<in> set (map inv_id (invoices d))" by simp_all
  from find_of_mem [OF fk] obtain i where i: "find (\<lambda>i. inv_id i = li_invoice_id li) (invoices d) = Some i" ..
  from insert_line_items_frame [OF assms(1)] have inv: "invoices d' = invoices d"
    and f: "fire_validate_line_items d' lis = None" by simp_all
  from fire_validate_None [OF f assms(2)] have "validate_line_items_sum d' li = None" .
  from validate_line_items_sum_None [OF this] i inv
  have "\<bar>line_items_sum d' (li_invoice_id li) - inv_amount i\<bar> \<le> 1" by simp
  with i check_line_item_row_pos [OF row] show ?thesis by blast
qed

lemma update_line_item_sum:
  assumes "update_line_item d lid f = Inr d'" "find (\<lambda>x. li_id x = lid) (line_items d) = Some old"
  shows "0 < li_quantity (f old) \<and> 0 < li_unit_price (f old) \<and> 0 < li_amount (f old) \<and>
     (\<exists>i. find (\<lambda>i. inv_id i = li_invoice_id (f old)) (invoices d) = Some i \<and>
          \<bar>line_items_sum d' (li_invoice_id (f old)) - inv_amount i\<bar> \<le> 1)"
proof -
  let ?rest = "filter (\<lambda>x. li_id x \<noteq> lid) (line_items d)"
  from assms have row: "check_line_item_row (f old) = None"
    and keys: "check_line_item_keys d ?rest (f old) = None"
    and d': "d' = d\<lparr>line_items := map (\<lambda>x. if li_id x = lid then f old else x) (line_items d)\<rparr>"
    and v: "validate_line_items_sum d' (f old) = None"
    by (auto simp: update_line_item_def Let_def split: option.splits if_splits)
  from keys have fk: "li_invoice_id (f old) \<in> set (map inv_id (invoices d))"
    by (auto simp: check_line_item_keys_def split: if_splits)
  from find_of_mem [OF fk] obtain i where
    i: "find (\<lambda>i. inv_id i = li_invoice_id (f old)) (invoices d) = Some i" ..
  from d' have inv: "invoices d' = invoices d" by simp
  from validate_line_items_sum_None [OF v] i inv
  have "\<bar>line_items_sum d' (li_invoice_id (f old)) - inv_amount i\<bar> \<le> 1" by simp
  with i check_line_item_row_pos [OF row] show ?thesis by blast
qed

lemma insert_each_prefix:
  assumes "insert_each d lis = Inr d'" "n < length lis"
  shows "\<exists>dn i. insert_each d (take (Suc n) lis) = Inr dn \<and>
           find (\<lambda>i. inv_id i = li_invoice_id (lis ! n)) (invoices d) = Some i \<and>
           \<bar>line_items_sum dn (li_invoice_id (lis ! n)) - inv_amount i\<bar> \<le> 1"
  using assms
proof (induction lis arbitrary: d n)
  case Nil
  then show ?case by simp
next
  case (Cons li lis)
  from Cons.prems(1) obtain d1 where one: "insert_line_items d [li] = Inr d1"
    and rest: "insert_each d1 lis = Inr d'"
    by (auto split: sum.splits)
  from insert_line_items_frame(1) [OF one] have inv: "invoices d1 = invoices d" by simp
  show ?case
  proof (cases n)
    case 0
    from insert_line_items_sum [OF one, of li] one 0 show ?thesis by auto
  next
    case (Suc m)
    with Cons.prems(2) have "m < length lis" by simp
    from Cons.IH [OF rest this] inv one Suc show ?thesis by auto
  qed
qed

lemma pending_db_eq: "pending_db = seed_db\<lparr>invoices := [sample_invoice 10000]\<rparr>"
proof -
  have "insert_invoice seed_db (sample_values 100) = Inr (seed_db\<lparr>invoices := [sample_invoice 10000]\<rparr>)"
    using insert_sample_cents [of 10000] by (simp add: invoices_amount_check_def)
  then show ?thesis by (simp add: pending_db_def)
qed

lemma pending_fields:
  "invoices pending_db = [sample_invoice 10000]" "line_items pending_db = []"
  by (simp_all add: pending_db_eq seed_db_def empty_db_def)

lemma sample_item_sel [simp]:
  "li_id (sample_item n q p) = n" "li_invoice_id (sample_item n q p) = ''INV-1''"
  "li_quantity (sample_item n q p) = q" "li_unit_price (sample_item n q p) = p"
  "li_line_number (sample_item n q p) = int n" "li_amount (sample_item n q p) = q * p"
  by (simp_all add: sample_item_def li_amount_def)

lemma sample_invoice_sel [simp]:
  "inv_id (sample_invoice a) = ''INV-1''" "inv_amount (sample_invoice a) = a"
  by (simp_all add: sample_invoice_def)

lemma insert_two_halves:
  "insert_line_items pending_db [sample_item 11 1 5000, sample_item 12 1 5000]
     = Inr (pending_db\<lparr>line_items := [sample_item 11 1 5000, sample_item 12 1 5000]\<rparr>)"
  by (simp add: insert_line_items_def check_line_item_row_def check_line_item_keys_def
      validate_line_items_sum_def line_items_sum_def pending_fields)

lemma insert_each_two_halves:
  "insert_each pending_db [sample_item 11 1 5000, sample_item 12 1 5000]
     = Inl (Raise_Exception ''INV-602 VIOLATION'')"
  by (simp add: insert_line_items_def check_line_item_row_def check_line_item_keys_def
      validate_line_items_sum_def line_items_sum_def pending_fields)

lemma insert_each_within_cent:
  "insert_each pending_db [sample_item 11 1 9999, sample_item 12 1 2]
     = Inr (pending_db\<lparr>line_items := [sample_item 11 1 9999, sample_item 12 1 2]\<rparr>)"
  by (simp add: insert_line_items_def check_line_item_row_def check_line_item_keys_def
      validate_line_items_sum_def line_items_sum_def pending_fields)

lemma reachable_line_items:
  "reachable_db seed_accounts line_item_stmts
     = pending_db\<lparr>line_items := [sample_item 11 1 5000, sample_item 12 1 5000]\<rparr>"
proof -
  have split: "line_item_stmts = [Insert_Invoice (sample_values 100)]
      @ [Insert_Line_Items [sample_item 11 1 5000, sample_item 12 1 5000]]"
    by (simp add: line_item_stmts_def)
  have seed: "empty_db\<lparr>accounts := seed_accounts\<rparr> = seed_db"
    by (simp add: seed_db_def seed_accounts_def)
  have "reachable_db seed_accounts line_item_stmts
          = run pending_db [Insert_Line_Items [sample_item 11 1 5000, sample_item 12 1 5000]]"
    unfolding reachable_db_def split run_append seed
    by (simp only: pending_db_def [symmetric])
  then show ?thesis by (simp add: insert_two_halves)
qed

lemma set_unit_price_sample: "set_unit_price p (sample_item n q r) = sample_item n q p"
  by (simp add: set_unit_price_def sample_item_def)

lemma update_within_cent:
  "update_line_item within_cent_db 12 (set_unit_price 1)
     = Inr (pending_db\<lparr>line_items := [sample_item 11 1 9999, sample_item 12 1 1]\<rparr>)"
  by (simp add: update_line_item_def within_cent_db_def set_unit_price_sample check_line_item_row_def
      check_line_item_keys_def validate_line_items_sum_def line_items_sum_def pending_fields Let_def)

lemma find_within_cent:
  "find (\<lambda>x. li_id x = 12) (line_items within_cent_db) = Some (sample_item 12 1 2)"
  by (simp add: within_cent_db_def)

text \<open>
  Claim C10. A statement that inserts line items succeeds only if every inserted row
  has a positive quantity and a positive unit price, hence a positive amount
  \<open>quantity * unit_price\<close>, and only if, once all its rows are written, the line items
  of the invoice of each inserted row sum to the invoice amount within 0.01; the same
  holds for the row an UPDATE writes. Every line item of a reachable database has a
  positive quantity, unit price and amount. When the line items of an invoice are
  inserted by separate single-row statements and all succeed, then after each of them
  the rows inserted so far sum to the invoice amount within 0.01. For an invoice of
  100.00, two items of 50.00 are accepted by one statement and refused when inserted
  one at a time.
\<close>

theorem line_items_validated:
  "(insert_line_items d lis = Inr d' \<longrightarrow>
      (\<forall>li\<in>set lis. 0 < li_quantity li \<and> 0 < li_unit_price li \<and>
         li_amount li = li_quantity li * li_unit_price li \<and> 0 < li_amount li \<and>
         (\<exists>i. find (\<lambda>i. inv_id i = li_invoice_id li) (invoices d) = Some i \<and>
              \<bar>line_items_sum d' (li_invoice_id li) - inv_amount i\<bar> \<le> 1)))
   \<and> (update_line_item d lid f = Inr d' \<and> find (\<lambda>x. li_id x = lid) (line_items d) = Some old \<longrightarrow>
        0 < li_quantity (f old) \<and> 0 < li_unit_price (f old) \<and> 0 < li_amount (f old) \<and>
        (\<exists>i. find (\<lambda>i. inv_id i = li_invoice_id (f old)) (invoices d) = Some i \<and>
             \<bar>line_items_sum d' (li_invoice_id (f old)) - inv_amount i\<bar> \<le> 1))
   \<and> (\<forall>li\<in>set (line_items (reachable_db acs ss)).
         0 < li_quantity li \<and> 0 < li_unit_price li \<and> 0 < li_amount li)
   \<and> (insert_each d lis = Inr d' \<and> n < length lis \<longrightarrow>
        (\<exists>dn i. insert_each d (take (Suc n) lis) = Inr dn \<and>
           find (\<lambda>i. inv_id i = li_invoice_id (lis ! n)) (invoices d) = Some i \<and>
           \<bar>line_items_sum dn (li_invoice_id (lis ! n)) - inv_amount i\<bar> \<le> 1))
   \<and> insert_each pending_db [sample_item 11 1 5000, sample_item 12 1 5000]
        = Inl (Raise_Exception ''INV-602 VIOLATION'')
   \<and> insert_line_items pending_db [sample_item 11 1 5000, sample_item 12 1 5000]
        = Inr (pending_db\<lparr>line_items := [sample_item 11 1 5000, sample_item 12 1 5000]\<rparr>)"
proof -
  have a: "insert_line_items d lis = Inr d' \<longrightarrow>
      (\<forall>li\<in>set lis. 0 < li_quantity li \<and> 0 < li_unit_price li \<and>
         li_amount li = li_quantity li * li_unit_price li \<and> 0 < li_amount li \<and>
         (\<exists>i. find (\<lambda>i. inv_id i = li_invoice_id li) (invoices d) = Some i \<and>
              \<bar>line_items_sum d' (li_invoice_id li) - inv_amount i\<bar> \<le> 1))"
    using insert_line_items_sum [of d lis d'] by (simp add: li_amount_def)
  have b: "update_line_item d lid f = Inr d' \<and> find (\<lambda>x. li_id x = lid) (line_items d) = Some old \<longrightarrow>
        0 < li_quantity (f old) \<and> 0 < li_unit_price (f old) \<and> 0 < li_amount (f old) \<and>
        (\<exists>i. find (\<lambda>i. inv_id i = li_invoice_id (f old)) (invoices d) = Some i \<and>
             \<bar>line_items_sum d' (li_invoice_id (f old)) - inv_amount i\<bar> \<le> 1)"
    using update_line_item_sum [of d lid f d' old] by blast
  have "line_items_ok (reachable_db acs ss)"
    using reachable_constraints_ok [of acs ss] by (simp add: constraints_ok_def)
  then have c: "\<forall>li\<in>set (line_items (reachable_db acs ss)).
         0 < li_quantity li \<and> 0 < li_unit_price li \<and> 0 < li_amount li"
    using check_line_item_row_pos by (simp add: line_items_ok_def list_all_iff)
  have e: "insert_each d lis = Inr d' \<and> n < length lis \<longrightarrow>
        (\<exists>dn i. insert_each d (take (Suc n) lis) = Inr dn \<and>
           find (\<lambda>i. inv_id i = li_invoice_id (lis ! n)) (invoices d) = Some i \<and>
           \<bar>line_items_sum dn (li_invoice_id (lis ! n)) - inv_amount i\<bar> \<le> 1)"
    using insert_each_prefix [of d lis d' n] by blast
  from a b c e insert_each_two_halves insert_two_halves show ?thesis by blast
qed

theorem line_items_validated_witness:
  "insert_line_items pending_db [sample_item 11 1 5000, sample_item 12 1 5000]
     = Inr (pending_db\<lparr>line_items := [sample_item 11 1 5000, sample_item 12 1 5000]\<rparr>)
   \<and> 0 < li_amount (sample_item 11 1 5000)
   \<and> (\<exists>i. find (\<lambda>i. inv_id i = li_invoice_id (sample_item 11 1 5000)) (invoices pending_db) = Some i \<and>
         \<bar>line_items_sum (pending_db\<lparr>line_items := [sample_item 11 1 5000, sample_item 12 1 5000]\<rparr>)
            (li_invoice_id (sample_item 11 1 5000)) - inv_amount i\<bar> \<le> 1)
   \<and> update_line_item within_cent_db 12 (set_unit_price 1)
        = Inr (pending_db\<lparr>line_items := [sample_item 11 1 9999, sample_item 12 1 1]\<rparr>)
   \<and> find (\<lambda>x. li_id x = 12) (line_items within_cent_db) = Some (sample_item 12 1 2)
   \<and> 0 < li_amount (set_unit_price 1 (sample_item 12 1 2))
   \<and> sample_item 12 1 5000 \<in> set (line_items (reachable_db seed_accounts line_item_stmts))
   \<and> 0 < li_amount (sample_item 12 1 5000)
   \<and> insert_each pending_db [sample_item 11 1 9999, sample_item 12 1 2]
        = Inr (pending_db\<lparr>line_items := [sample_item 11 1 9999, sample_item 12 1 2]\<rparr>)
   \<and> (\<exists>dn i. insert_each pending_db (take (Suc 1) [sample_item 11 1 9999, sample_item 12 1 2]) = Inr dn \<and>
         find (\<lambda>i. inv_id i = li_invoice_id ([sample_item 11 1 9999, sample_item 12 1 2] ! 1))
           (invoices pending_db) = Some i \<and>
         \<bar>line_items_sum dn (li_invoice_id ([sample_item 11 1 9999, sample_item 12 1 2] ! 1)) - inv_amount i\<bar> \<le> 1)"
proof -
  let ?halves = "[sample_item 11 1 5000, sample_item 12 1 5000]"
  let ?cents = "[sample_item 11 1 9999, sample_item 12 1 2]"
  note t1 = line_items_validated [of pending_db ?halves "pending_db\<lparr>line_items := ?halves\<rparr>"
      12 "set_unit_price 1" "sample_item 12 1 2" seed_accounts line_item_stmts 1]
  note t2 = line_items_validated [of within_cent_db ?cents
      "pending_db\<lparr>line_items := [sample_item 11 1 9999, sample_item 12 1 1]\<rparr>"
      12 "set_unit_price 1" "sample_item 12 1 2" seed_accounts line_item_stmts 1]
  note t3 = line_items_validated [of pending_db ?cents "pending_db\<lparr>line_items := ?cents\<rparr>"
      12 "set_unit_price 1" "sample_item 12 1 2" seed_accounts line_item_stmts 1]
  have m: "sample_item 12 1 5000 \<in> set (line_items (reachable_db seed_accounts line_item_stmts))"
    by (simp add: reachable_line_items)
  have p1: "0 < li_amount (sample_item 11 1 5000) \<and>
    (\<exists>i. find (\<lambda>i. inv_id i = li_invoice_id (sample_item 11 1 5000)) (invoices pending_db) = Some i \<and>
         \<bar>line_items_sum (pending_db\<lparr>line_items := ?halves\<rparr>)
            (li_invoice_id (sample_item 11 1 5000)) - inv_amount i\<bar> \<le> 1)"
    using t1 insert_two_halves by simp
  have p2: "0 < li_amount (set_unit_price 1 (sample_item 12 1 2))"
    using t2 update_within_cent find_within_cent by blast
  have p3: "0 < li_amount (sample_item 12 1 5000)"
    using t1 m by blast
  have l: "(1::nat) < length ?cents" by simp
  have p4: "\<exists>dn i. insert_each pending_db (take (Suc 1) ?cents) = Inr dn \<and>
         find (\<lambda>i. inv_id i = li_invoice_id (?cents ! 1)) (invoices pending_db) = Some i \<and>
         \<bar>line_items_sum dn (li_invoice_id (?cents ! 1)) - inv_amount i\<bar> \<le> 1"
    using t3 insert_each_within_cent l by blast
  from p1 p2 p3 p4 m insert_two_halves update_within_cent find_within_cent insert_each_within_cent
  show ?thesis by blast
qed

end
